theory Spec2Isabelle
  imports Complex_Main
begin

section \<open>Python values and string helpers\<close>

text \<open>
  The program is Python: \<^verbatim>\<open>src/server.py\<close> (the single-request scheduler) and
  \<^verbatim>\<open>src/crawl_site.py\<close> (sitemap discovery, the batch coordinator and the result sink).
  Dictionaries that the code builds and serialises (task records, result records, log lines)
  are modelled as association lists of JSON-like values, in the key order of the source.
\<close>

datatype pyval =
    PyNone
  | PyBool bool
  | PyInt int
  | PyFloat real
  | PyStr string
  | PyList "pyval list"
  | PyDict "(string \<times> pyval) list"

type_synonym pydict = "(string \<times> pyval) list"

text \<open>\<^verbatim>\<open>d.get(k, default)\<close> and \<^verbatim>\<open>k in d\<close>.\<close>

definition dict_get :: "pydict \<Rightarrow> string \<Rightarrow> pyval \<Rightarrow> pyval" where
  "dict_get d k dflt = (case map_of d k of Some v \<Rightarrow> v | None \<Rightarrow> dflt)"

definition dict_has :: "pydict \<Rightarrow> string \<Rightarrow> bool" where
  "dict_has d k = (map_of d k \<noteq> None)"

text \<open>An optional string as a Python value: \<^verbatim>\<open>None\<close> or a \<^verbatim>\<open>str\<close>.\<close>

fun opt_str :: "string option \<Rightarrow> pyval" where
  "opt_str None = PyNone"
| "opt_str (Some s) = PyStr s"

text \<open>
  \<^verbatim>\<open>str.lower()\<close>, \<^verbatim>\<open>sub in s\<close>, \<^verbatim>\<open>s.endswith(suffix)\<close> and \<^verbatim>\<open>s.split()\<close>, on ASCII text
  (a \<open>char\<close> is a byte).
\<close>

definition lower_char :: "char \<Rightarrow> char" where
  "lower_char c =
     (let n = (of_char c :: nat) in if 65 \<le> n \<and> n \<le> 90 then char_of (n + 32) else c)"

definition py_lower :: "string \<Rightarrow> string" where
  "py_lower s = map lower_char s"

fun starts_with :: "string \<Rightarrow> string \<Rightarrow> bool" where
  "starts_with s [] = True"
| "starts_with [] (p # ps) = False"
| "starts_with (c # cs) (p # ps) = (c = p \<and> starts_with cs ps)"

fun py_in :: "string \<Rightarrow> string \<Rightarrow> bool" where
  "py_in sub [] = (sub = [])"
| "py_in sub (c # cs) = (starts_with (c # cs) sub \<or> py_in sub cs)"

definition endswith :: "string \<Rightarrow> string \<Rightarrow> bool" where
  "endswith s suffix =
     (length suffix \<le> length s \<and> drop (length s - length suffix) s = suffix)"

definition is_space :: "char \<Rightarrow> bool" where
  "is_space c =
     (let n = (of_char c :: nat) in n = 32 \<or> (9 \<le> n \<and> n \<le> 13) \<or> (28 \<le> n \<and> n \<le> 31))"

text \<open>\<open>split_words cur s\<close>: the words of \<open>s\<close>, \<open>cur\<close> being the word read so far (reversed).\<close>

fun split_words :: "string \<Rightarrow> string \<Rightarrow> string list" where
  "split_words cur [] = (if cur = [] then [] else [rev cur])"
| "split_words cur (c # cs) =
     (if is_space c then (if cur = [] then split_words [] cs else rev cur # split_words [] cs)
      else split_words (c # cur) cs)"

definition py_split :: "string \<Rightarrow> string list" where
  "py_split s = split_words [] s"

section \<open>The renderer's result (external capability)\<close>

text \<open>
  \<^verbatim>\<open>crawler.arun(...)\<close> is the external renderer. What it hands back is data of the model:
  it raises an \<^verbatim>\<open>Exception\<close> (\<open>Raises\<close>, with the text \<^verbatim>\<open>str(e)\<close>), it ends in a
  \<^verbatim>\<open>BaseException\<close> that is not an \<^verbatim>\<open>Exception\<close>, such as \<^verbatim>\<open>asyncio.CancelledError\<close>
  (\<open>RaisesBase\<close>, with the name of its class), or it returns a \<^verbatim>\<open>CrawlResult\<close>.
  The fields are those the repository reads. \<open>markdown_v2 = None\<close> is Python's \<^verbatim>\<open>None\<close>;
  \<open>start_time\<close> and \<open>raw_html\<close> are \<open>None\<close> when the object has no such attribute
  (the \<^verbatim>\<open>hasattr\<close> tests of the server). No arithmetic is done on floats in the model:
  a float is carried as it is, and the one number the code computes from floats
  (\<^verbatim>\<open>crawl_time_ms\<close>) is taken from the interpreter as a parameter.
\<close>

record MarkdownGenerationResult =
  raw_markdown :: string
  fit_markdown :: "string option"

record CrawlResult =
  success :: bool
  error_message :: "string option"
  markdown_v2 :: "MarkdownGenerationResult option"
  extracted_content :: pyval
  links :: pyval
  images :: pyval
  start_time :: "pyval option"
  raw_html :: "string option"

datatype arun_outcome = Raises string | RaisesBase string | Returns CrawlResult

section \<open>The server: requests, authentication, the task table\<close>

datatype urls_field = Url string | UrlList "string list"

record CrawlRequest =
  urls :: urls_field
  priority :: int
  use_llm :: bool
  custom_schema :: "pydict option"
  search_query :: "string option"
  extract_json :: bool
  content_filter :: string
  filter_threshold :: real
  wait_for :: string
  page_timeout :: int

datatype http_error = HTTPException nat string

text \<open>
  The \<^verbatim>\<open>Field(ge=..., le=...)\<close> constraints of \<^verbatim>\<open>CrawlRequest\<close>: a body outside
  them never reaches the handler (the framework answers 422).
\<close>

definition validate_request :: "CrawlRequest \<Rightarrow> http_error + CrawlRequest" where
  "validate_request request =
     (if 1 \<le> priority request \<and> priority request \<le> 10
         \<and> 1000 \<le> page_timeout request \<and> page_timeout request \<le> 60000
      then Inr request
      else Inl (HTTPException 422 ''Unprocessable Entity''))"

text \<open>
  \<^verbatim>\<open>verify_token\<close>: \<open>api_token\<close> is the configured \<^verbatim>\<open>CRAWL4AI_API_TOKEN\<close> (\<open>None\<close> when the
  variable is unset; \<^verbatim>\<open>not API_TOKEN\<close> also holds for the empty string), \<open>credentials\<close>
  the bearer token of the request.
\<close>

definition verify_token :: "string option \<Rightarrow> string \<Rightarrow> bool" where
  "verify_token api_token credentials =
     (if api_token = None \<or> api_token = Some [] then True
      else Some credentials = api_token)"

text \<open>
  A live asyncio task running \<^verbatim>\<open>process_crawl\<close>: created and not yet inside the semaphore,
  suspended in \<^verbatim>\<open>await crawler.arun(...)\<close> with the url and configuration it computed,
  finished (\<^verbatim>\<open>process_crawl\<close> returned), or ended by a \<^verbatim>\<open>BaseException\<close> that the
  handler of line 254 does not catch.
\<close>

datatype content_filter_strategy =
    PruningContentFilter real
  | BM25ContentFilter string real

record CrawlerRunConfig =
  markdown_generator :: "content_filter_strategy option"
  extraction_strategy :: "pydict option"
  word_count_threshold :: nat
  wait_until :: string
  run_page_timeout :: int
  wait_for_images :: bool

datatype worker =
    Waiting CrawlRequest
  | Rendering string CrawlerRunConfig CrawlRequest
  | Done
  | Aborted

text \<open>
  The global state of the server. \<open>tasks\<close> is the dictionary \<^verbatim>\<open>tasks\<close>; \<open>workers\<close> lists the
  asyncio tasks in creation order with the task id each was given; \<open>task_semaphore\<close> is the
  number of free permits; \<open>uuid_calls\<close> counts the calls of \<^verbatim>\<open>uuid.uuid4()\<close> so far.
  The uuid source is a parameter \<open>uuid4 :: nat \<Rightarrow> string\<close>: its n-th draw.
\<close>

record server_state =
  tasks :: "string \<rightharpoonup> pydict"
  workers :: "(string \<times> worker) list"
  task_semaphore :: nat
  uuid_calls :: nat

definition initial_state :: "nat \<Rightarrow> server_state" where
  "initial_state max_concurrent_tasks =
     \<lparr>tasks = Map.empty, workers = [], task_semaphore = max_concurrent_tasks, uuid_calls = 0\<rparr>"

definition pending_task :: pydict where
  "pending_task = [(''status'', PyStr ''pending''), (''result'', PyNone)]"

definition failed_task :: "pyval \<Rightarrow> pydict" where
  "failed_task error_msg = [(''status'', PyStr ''failed''), (''error'', error_msg)]"

text \<open>
  \<^verbatim>\<open>crawl\<close>, the handler of \<^verbatim>\<open>POST /crawl\<close>. \<open>token\<close> is the value of the dependency
  \<^verbatim>\<open>Depends(verify_token)\<close>; the body of the handler never reads it.
\<close>

definition crawl ::
  "(nat \<Rightarrow> string) \<Rightarrow> server_state \<Rightarrow> CrawlRequest \<Rightarrow> bool \<Rightarrow> (http_error + string) \<times> server_state" where
  "crawl uuid4 s request token =
     (if use_llm request then
        (Inl (HTTPException 400 ''LLM support is currently disabled''), s)
      else
        let task_id = uuid4 (uuid_calls s) in
        (Inr task_id,
         s\<lparr>tasks := (tasks s)(task_id \<mapsto> pending_task),
           workers := workers s @ [(task_id, Waiting request)],
           uuid_calls := Suc (uuid_calls s)\<rparr>))"

text \<open>\<^verbatim>\<open>get_task_status\<close>, the handler of \<^verbatim>\<open>GET /task/{task_id}\<close>.\<close>

definition get_task_status :: "server_state \<Rightarrow> string \<Rightarrow> bool \<Rightarrow> http_error + pydict" where
  "get_task_status s task_id token =
     (case tasks s task_id of
        None \<Rightarrow> Inl (HTTPException 404 ''Task not found'')
      | Some t \<Rightarrow> Inr t)"

text \<open>
  The two endpoints as the framework calls them. \<open>authorization\<close> is the bearer token of
  the request, \<open>None\<close> when the request has no \<^verbatim>\<open>Authorization: Bearer ...\<close> header: the
  dependency \<^verbatim>\<open>security = HTTPBearer()\<close> then answers 403 before \<^verbatim>\<open>verify_token\<close> runs,
  whether or not a secret is configured. Otherwise \<^verbatim>\<open>verify_token\<close> is evaluated on the
  token, the body is validated, and the value of the dependency is passed to the handler.
\<close>

definition post_crawl ::
  "string option \<Rightarrow> (nat \<Rightarrow> string) \<Rightarrow> server_state \<Rightarrow> string option \<Rightarrow> CrawlRequest
     \<Rightarrow> (http_error + string) \<times> server_state" where
  "post_crawl api_token uuid4 s authorization body =
     (case authorization of
        None \<Rightarrow> (Inl (HTTPException 403 ''Not authenticated''), s)
      | Some credentials \<Rightarrow>
          (case validate_request body of
             Inl e \<Rightarrow> (Inl e, s)
           | Inr request \<Rightarrow> crawl uuid4 s request (verify_token api_token credentials)))"

definition get_task ::
  "string option \<Rightarrow> server_state \<Rightarrow> string option \<Rightarrow> string \<Rightarrow> http_error + pydict" where
  "get_task api_token s authorization task_id =
     (case authorization of
        None \<Rightarrow> Inl (HTTPException 403 ''Not authenticated'')
      | Some credentials \<Rightarrow> get_task_status s task_id (verify_token api_token credentials))"

section \<open>The worker: \<^verbatim>\<open>process_crawl\<close>\<close>

text \<open>
  \<^verbatim>\<open>request.urls if isinstance(request.urls, str) else request.urls[0]\<close>; \<open>Inl\<close> carries the
  text of the \<^verbatim>\<open>IndexError\<close>.
\<close>

definition request_url :: "CrawlRequest \<Rightarrow> string + string" where
  "request_url request =
     (case urls request of
        Url u \<Rightarrow> Inr u
      | UrlList us \<Rightarrow> (case us of [] \<Rightarrow> Inl ''list index out of range'' | u # _ \<Rightarrow> Inr u))"

definition truthy_str :: "string option \<Rightarrow> bool" where
  "truthy_str q = (case q of None \<Rightarrow> False | Some s \<Rightarrow> s \<noteq> [])"

definition truthy_dict :: "pydict option \<Rightarrow> bool" where
  "truthy_dict d = (case d of None \<Rightarrow> False | Some kvs \<Rightarrow> kvs \<noteq> [])"

definition select_content_filter :: "CrawlRequest \<Rightarrow> content_filter_strategy option" where
  "select_content_filter request =
     (if content_filter request = ''pruning'' then
        Some (PruningContentFilter (filter_threshold request))
      else if content_filter request = ''bm25'' \<and> truthy_str (search_query request) then
        Some (BM25ContentFilter (the (search_query request)) (filter_threshold request))
      else None)"

definition run_config :: "CrawlRequest \<Rightarrow> CrawlerRunConfig" where
  "run_config request =
     \<lparr>markdown_generator = select_content_filter request,
      extraction_strategy =
        (if extract_json request \<and> truthy_dict (custom_schema request)
         then custom_schema request else None),
      word_count_threshold = 50,
      wait_until =
        (if wait_for request = ''networkidle0'' then ''domcontentloaded'' else wait_for request),
      run_page_timeout = min (page_timeout request) 30000,
      wait_for_images = True\<rparr>"

text \<open>The text of the \<^verbatim>\<open>AttributeError\<close> raised by \<^verbatim>\<open>result.markdown_v2.raw_markdown\<close> on \<^verbatim>\<open>None\<close>.\<close>

definition none_attribute_error :: string where
  "none_attribute_error =
     CHR 0x27 # ''NoneType'' @ CHR 0x27 # '' object has no attribute '' @ CHR 0x27 #
     ''raw_markdown'' @ [CHR 0x27]"

text \<open>
  The dictionary stored for a successful result (lines 230 to 244). \<open>elapsed_ms\<close> is the
  integer the interpreter computes for \<^verbatim>\<open>int((time.time() - result.start_time) * 1000)\<close>.
  \<open>Inl\<close> carries the text of an exception raised while building the dictionary.
\<close>

definition completed_task :: "string \<Rightarrow> CrawlRequest \<Rightarrow> CrawlResult \<Rightarrow> int \<Rightarrow> string + pydict" where
  "completed_task url request result elapsed_ms =
     (case markdown_v2 result of
        None \<Rightarrow> Inl none_attribute_error
      | Some md \<Rightarrow>
          Inr [(''status'', PyStr ''completed''),
               (''result'', PyDict
                 [(''url'', PyStr url),
                  (''raw_markdown'', PyStr (raw_markdown md)),
                  (''fit_markdown'', opt_str (fit_markdown md)),
                  (''extracted_json'',
                     (if extract_json request then extracted_content result else PyNone)),
                  (''links'', links result),
                  (''images'', images result),
                  (''stats'', PyDict
                    [(''crawl_time_ms'',
                        (case start_time result of
                           None \<Rightarrow> PyNone
                         | Some st \<Rightarrow> PyInt elapsed_ms)),
                     (''page_size_bytes'',
                        (case raw_html result of
                           None \<Rightarrow> PyNone
                         | Some h \<Rightarrow> PyInt (int (length h))))])])])"

text \<open>
  The dictionary stored once \<^verbatim>\<open>arun\<close> has settled (lines 229 to 259), \<open>None\<close> when
  nothing is stored: \<^verbatim>\<open>except Exception\<close> does not catch a \<^verbatim>\<open>BaseException\<close>, which
  leaves \<^verbatim>\<open>process_crawl\<close> without a write to \<^verbatim>\<open>tasks\<close>.
\<close>

definition settled_task :: "string \<Rightarrow> CrawlRequest \<Rightarrow> arun_outcome \<Rightarrow> int \<Rightarrow> pydict option" where
  "settled_task url request outcome elapsed_ms =
     (case outcome of
        Raises msg \<Rightarrow> Some (failed_task (PyStr msg))
      | RaisesBase cls \<Rightarrow> None
      | Returns result \<Rightarrow>
          (if success result then
             (case completed_task url request result elapsed_ms of
                Inl msg \<Rightarrow> Some (failed_task (PyStr msg))
              | Inr t \<Rightarrow> Some t)
           else Some (failed_task (opt_str (error_message result)))))"

text \<open>
  \<^verbatim>\<open>process_crawl\<close> runs in two atomic sections of the event loop. The first one enters the
  semaphore (possible only when a permit is free) and runs lines 162 to 221: when
  \<^verbatim>\<open>request.urls[0]\<close> raises, the handler of line 254 stores the failure and the permit is
  given back at once; otherwise the task suspends in \<^verbatim>\<open>await crawler.arun(...)\<close>.
  The second one runs when \<^verbatim>\<open>arun\<close> has settled: it stores the outcome, if there is one
  to store, and leaves the semaphore (\<^verbatim>\<open>async with\<close> gives the permit back on every exit).
  \<open>k\<close> is the position of the asyncio task in creation order.
\<close>

definition process_crawl_begin :: "server_state \<Rightarrow> nat \<Rightarrow> server_state" where
  "process_crawl_begin s k =
     (if k < length (workers s) then
        (case workers s ! k of
           (task_id, Waiting request) \<Rightarrow>
             (if task_semaphore s = 0 then s
              else
                (case request_url request of
                   Inl msg \<Rightarrow>
                     s\<lparr>tasks := (tasks s)(task_id \<mapsto> failed_task (PyStr msg)),
                       workers := (workers s)[k := (task_id, Done)]\<rparr>
                 | Inr url \<Rightarrow>
                     s\<lparr>workers := (workers s)[k := (task_id, Rendering url (run_config request) request)],
                       task_semaphore := task_semaphore s - 1\<rparr>))
         | (task_id, Rendering url config request) \<Rightarrow> s
         | (task_id, Done) \<Rightarrow> s
         | (task_id, Aborted) \<Rightarrow> s)
      else s)"

definition process_crawl_settle :: "server_state \<Rightarrow> nat \<Rightarrow> arun_outcome \<Rightarrow> int \<Rightarrow> server_state" where
  "process_crawl_settle s k outcome elapsed_ms =
     (if k < length (workers s) then
        (case workers s ! k of
           (task_id, Rendering url config request) \<Rightarrow>
             (case settled_task url request outcome elapsed_ms of
                Some t \<Rightarrow>
                  s\<lparr>tasks := (tasks s)(task_id \<mapsto> t),
                    workers := (workers s)[k := (task_id, Done)],
                    task_semaphore := task_semaphore s + 1\<rparr>
              | None \<Rightarrow>
                  s\<lparr>workers := (workers s)[k := (task_id, Aborted)],
                    task_semaphore := task_semaphore s + 1\<rparr>)
         | (task_id, Waiting request) \<Rightarrow> s
         | (task_id, Done) \<Rightarrow> s
         | (task_id, Aborted) \<Rightarrow> s)
      else s)"

section \<open>Runs of the server\<close>

text \<open>
  What can happen to the server: a submission, a status query, a worker entering the
  semaphore, the renderer settling for a worker. An event that is not enabled leaves the
  state as it is, so the states reached by event lists are exactly the reachable states.
\<close>

datatype event =
    Post_crawl "string option" CrawlRequest
  | Get_task "string option" string
  | Worker_begin nat
  | Worker_settle nat arun_outcome int

fun fire :: "string option \<Rightarrow> (nat \<Rightarrow> string) \<Rightarrow> server_state \<Rightarrow> event \<Rightarrow> server_state" where
  "fire api_token uuid4 s (Post_crawl authorization body) =
     snd (post_crawl api_token uuid4 s authorization body)"
| "fire api_token uuid4 s (Get_task authorization task_id) = s"
| "fire api_token uuid4 s (Worker_begin k) = process_crawl_begin s k"
| "fire api_token uuid4 s (Worker_settle k outcome elapsed_ms) =
     process_crawl_settle s k outcome elapsed_ms"

definition exec ::
  "string option \<Rightarrow> (nat \<Rightarrow> string) \<Rightarrow> nat \<Rightarrow> event list \<Rightarrow> server_state" where
  "exec api_token uuid4 max_concurrent_tasks evs =
     foldl (fire api_token uuid4) (initial_state max_concurrent_tasks) evs"

text \<open>The status of a task as a status query reads it, \<open>None\<close> for an unknown id.\<close>

definition status_of :: "server_state \<Rightarrow> string \<Rightarrow> pyval option" where
  "status_of s task_id = (case tasks s task_id of None \<Rightarrow> None | Some t \<Rightarrow> map_of t ''status'')"


text \<open>
  Concrete uuid sources for examples: one with distinct strings for distinct draws, and one
  that repeats.
\<close>

definition example_uuid4 :: "nat \<Rightarrow> string" where
  "example_uuid4 n = ''task-'' @ replicate n CHR ''i''"


definition example_request :: CrawlRequest where
  "example_request =
     \<lparr>urls = Url ''https://example.com'', priority = 5, use_llm = False, custom_schema = None,
      search_query = None, extract_json = True, content_filter = ''pruning'',
      filter_threshold = 0.5, wait_for = ''domcontentloaded'', page_timeout = 30000\<rparr>"

definition example_result :: CrawlResult where
  "example_result =
     \<lparr>success = True, error_message = None,
      markdown_v2 = Some \<lparr>raw_markdown = ''# Example Domain'', fit_markdown = Some ''# Example Domain''\<rparr>,
      extracted_content = PyNone, links = PyDict [], images = PyDict [],
      start_time = None, raw_html = None\<rparr>"

section \<open>Properties of server states\<close>

text \<open>
  The invariants that link the task table with the workers. \<open>ids_inv\<close>: one worker per
  uuid drawn, the table's keys are the uuids drawn, worker \<open>k\<close> owns the \<open>k\<close>-th uuid.
  \<open>table_inv\<close> (for a uuid source that does not repeat): a worker that has not finished
  leaves its task as the submission stored it, and the task of a finished worker has a
  terminal status.
\<close>

definition ids_inv :: "(nat \<Rightarrow> string) \<Rightarrow> server_state \<Rightarrow> bool" where
  "ids_inv uuid4 s \<longleftrightarrow>
     length (workers s) = uuid_calls s
     \<and> dom (tasks s) = uuid4 ` {..<uuid_calls s}
     \<and> (\<forall>k<length (workers s). fst (workers s ! k) = uuid4 k)"

definition terminal :: "pyval option \<Rightarrow> bool" where
  "terminal st \<longleftrightarrow> st = Some (PyStr ''completed'') \<or> st = Some (PyStr ''failed'')"

definition table_inv :: "(nat \<Rightarrow> string) \<Rightarrow> server_state \<Rightarrow> bool" where
  "table_inv uuid4 s \<longleftrightarrow>
     ids_inv uuid4 s
     \<and> (\<forall>k<length (workers s).
           (snd (workers s ! k) \<noteq> Done \<longrightarrow> tasks s (uuid4 k) = Some pending_task)
           \<and> (snd (workers s ! k) = Done \<longrightarrow> terminal (status_of s (uuid4 k))))"

text \<open>
  What the specification says of a stored task: a non-null \<^verbatim>\<open>result\<close>, a non-null
  \<^verbatim>\<open>error\<close>, and how the code ties them to the status (\<open>task_wf\<close>): a non-null result
  exactly for completed, the key \<^verbatim>\<open>error\<close> exactly for failed.
\<close>

definition result_present :: "pydict \<Rightarrow> bool" where
  "result_present t = (case map_of t ''result'' of None \<Rightarrow> False | Some v \<Rightarrow> v \<noteq> PyNone)"

definition error_present :: "pydict \<Rightarrow> bool" where
  "error_present t = (case map_of t ''error'' of None \<Rightarrow> False | Some v \<Rightarrow> v \<noteq> PyNone)"

definition task_wf :: "pydict \<Rightarrow> bool" where
  "task_wf t \<longleftrightarrow>
     (result_present t \<longleftrightarrow> map_of t ''status'' = Some (PyStr ''completed''))
     \<and> (dict_has t ''error'' \<longleftrightarrow> map_of t ''status'' = Some (PyStr ''failed''))"

text \<open>The status changes a single event may cause.\<close>

definition status_step :: "pyval option \<Rightarrow> pyval option \<Rightarrow> bool" where
  "status_step a b \<longleftrightarrow>
     b = a
     \<or> (a = None \<and> b = Some (PyStr ''pending''))
     \<or> (a = Some (PyStr ''pending'') \<and> (b = Some (PyStr ''completed'') \<or> b = Some (PyStr ''failed'')))"

definition all_wf :: "server_state \<Rightarrow> bool" where
  "all_wf s \<longleftrightarrow> (\<forall>task_id t. tasks s task_id = Some t \<longrightarrow> task_wf t)"

text \<open>Concrete inputs for the examples.\<close>

definition example_failure :: CrawlResult where
  "example_failure = example_result\<lparr>success := False, error_message := Some ''HTTP 500''\<rparr>"

definition example_null_failure :: CrawlResult where
  "example_null_failure = example_result\<lparr>success := False, error_message := None\<rparr>"

definition example_events :: "event list" where
  "example_events =
     [Post_crawl (Some ''k'') example_request, Worker_begin 0, Worker_settle 0 (Returns example_result) 0]"

definition example_null_events :: "event list" where
  "example_null_events =
     [Post_crawl (Some ''k'') example_request, Worker_begin 0,
      Worker_settle 0 (Returns example_null_failure) 0]"

definition example_later :: "event list" where
  "example_later =
     [Post_crawl (Some ''k'') example_request, Worker_settle 0 (Returns example_failure) 1, Worker_begin 0,
      Get_task (Some ''k'') ''task-'', Worker_begin 1, Worker_settle 1 (Raises ''Page.goto: Timeout'') 2]"

definition example_completed :: pydict where
  "example_completed =
     [(''status'', PyStr ''completed''),
      (''result'', PyDict
         [(''url'', PyStr ''https://example.com''),
          (''raw_markdown'', PyStr ''# Example Domain''),
          (''fit_markdown'', PyStr ''# Example Domain''),
          (''extracted_json'', PyNone),
          (''links'', PyDict []),
          (''images'', PyDict []),
          (''stats'', PyDict [(''crawl_time_ms'', PyNone), (''page_size_bytes'', PyNone)])])]"

definition example_list_request :: CrawlRequest where
  "example_list_request = example_request\<lparr>urls := UrlList [''https://a.example'', ''https://b.example'']\<rparr>"

definition example_empty_request :: CrawlRequest where
  "example_empty_request = example_request\<lparr>urls := UrlList []\<rparr>"

section \<open>Sitemap discovery: \<^verbatim>\<open>get_sitemap_urls\<close>\<close>

text \<open>
  The network and the XML parser are a parameter \<open>fetch\<close>: for a URL it gives \<open>None\<close> when
  \<^verbatim>\<open>requests.get\<close>, \<^verbatim>\<open>raise_for_status\<close> or \<^verbatim>\<open>ElementTree.fromstring\<close> raises, and
  otherwise the texts of the \<^verbatim>\<open>loc\<close> elements found by \<^verbatim>\<open>findall\<close>, in document order
  (the text of an empty element is Python's \<^verbatim>\<open>None\<close>). \<^verbatim>\<open>urljoin\<close> is a parameter too.
  The function collects into a Python set and returns \<^verbatim>\<open>list(urls)\<close>, whose order is
  not specified: the model returns the set.
\<close>

type_synonym loc_text = "string option"

definition sitemap_locations :: "string list" where
  "sitemap_locations =
     [''/sitemap.xml'', ''/sitemap_index.xml'', ''/sitemap/sitemap.xml'', ''/wp-sitemap.xml'']"

text \<open>\<^verbatim>\<open>loc.text and loc.text.endswith('.xml')\<close>\<close>

definition is_xml_loc :: "loc_text \<Rightarrow> bool" where
  "is_xml_loc t = (case t of None \<Rightarrow> False | Some s \<Rightarrow> s \<noteq> [] \<and> endswith s ''.xml'')"

text \<open>The loop of lines 87 to 95: a sub-sitemap that cannot be fetched adds nothing.\<close>

fun fetch_sub_sitemaps ::
  "(string \<Rightarrow> loc_text list option) \<Rightarrow> loc_text list \<Rightarrow> loc_text set \<Rightarrow> loc_text set" where
  "fetch_sub_sitemaps fetch [] found = found"
| "fetch_sub_sitemaps fetch (sitemap # sitemaps) found =
     (if is_xml_loc sitemap then
        (case fetch (the sitemap) of
           None \<Rightarrow> fetch_sub_sitemaps fetch sitemaps found
         | Some sub_locs \<Rightarrow> fetch_sub_sitemaps fetch sitemaps (found \<union> set sub_locs))
      else fetch_sub_sitemaps fetch sitemaps found)"

text \<open>
  Lines 86 to 98: what one parsed candidate adds to the set \<^verbatim>\<open>urls\<close> (\<open>found\<close> here, and
  \<open>url_list\<close> for the list of the coordinator: \<open>urls\<close> is a field of the request).
\<close>

definition sitemap_candidate ::
  "(string \<Rightarrow> loc_text list option) \<Rightarrow> loc_text list \<Rightarrow> loc_text set \<Rightarrow> loc_text set" where
  "sitemap_candidate fetch sitemaps found =
     (if list_ex is_xml_loc sitemaps then fetch_sub_sitemaps fetch sitemaps found
      else found \<union> set sitemaps)"

text \<open>The loop over the candidate paths, with its \<^verbatim>\<open>break\<close> as soon as the set is not empty.\<close>

fun try_sitemaps ::
  "(string \<Rightarrow> loc_text list option) \<Rightarrow> (string \<Rightarrow> string \<Rightarrow> string) \<Rightarrow> string
     \<Rightarrow> string list \<Rightarrow> loc_text set \<Rightarrow> loc_text set" where
  "try_sitemaps fetch urljoin base_url [] found = found"
| "try_sitemaps fetch urljoin base_url (sitemap_path # paths) found =
     (case fetch (urljoin base_url sitemap_path) of
        None \<Rightarrow> try_sitemaps fetch urljoin base_url paths found
      | Some sitemaps \<Rightarrow>
          (let found' = sitemap_candidate fetch sitemaps found in
           if found' \<noteq> {} then found' else try_sitemaps fetch urljoin base_url paths found'))"

definition get_sitemap_urls ::
  "(string \<Rightarrow> loc_text list option) \<Rightarrow> (string \<Rightarrow> string \<Rightarrow> string) \<Rightarrow> string \<Rightarrow> loc_text set" where
  "get_sitemap_urls fetch urljoin base_url =
     try_sitemaps fetch urljoin base_url sitemap_locations {}"

text \<open>
  What the claim about discovery speaks of: the leaf values of the sub-sitemaps named by the
  \<^verbatim>\<open>.xml\<close> entries of a file, and whether a candidate path contributes no URL at all.
\<close>

definition sub_sitemap_leaves ::
  "(string \<Rightarrow> loc_text list option) \<Rightarrow> loc_text list \<Rightarrow> loc_text set" where
  "sub_sitemap_leaves fetch sitemaps =
     (\<Union>sitemap \<in> {l \<in> set sitemaps. is_xml_loc l}.
        case fetch (the sitemap) of None \<Rightarrow> {} | Some sub_locs \<Rightarrow> set sub_locs)"

definition yields_nothing ::
  "(string \<Rightarrow> loc_text list option) \<Rightarrow> string \<Rightarrow> bool" where
  "yields_nothing fetch sitemap_url =
     (case fetch sitemap_url of
        None \<Rightarrow> True
      | Some sitemaps \<Rightarrow> sitemap_candidate fetch sitemaps {} = {})"

section \<open>The result sink: \<^verbatim>\<open>save_batch_results\<close>\<close>

text \<open>
  The two logs of a run, each a list of JSON records, one per line written
  (\<^verbatim>\<open>json.dumps\<close> puts no line break inside a record). \<open>clock_reads\<close> counts the calls of
  \<^verbatim>\<open>datetime.now()\<close>; the clock is a parameter \<open>now\<close>, giving the text of its n-th reading.
\<close>

record sink =
  results_jsonl :: "pyval list"
  errors_jsonl :: "pyval list"
  clock_reads :: nat

text \<open>
  One iteration of the loop of \<^verbatim>\<open>save_batch_results\<close>. \<^verbatim>\<open>result["url"]\<close> raises
  \<^verbatim>\<open>KeyError\<close> when the key is missing: the first component is then the text of the error.
\<close>

definition save_result :: "(nat \<Rightarrow> string) \<Rightarrow> pydict \<Rightarrow> sink \<Rightarrow> string option \<times> sink" where
  "save_result now result out =
     (case map_of result ''url'' of
        None \<Rightarrow> (Some ''KeyError: url'', out)
      | Some url \<Rightarrow>
          (let content = PyDict
                 [(''url'', url),
                  (''timestamp'', PyStr (now (clock_reads out))),
                  (''content'', PyDict
                     [(''title'', dict_get result ''title'' (PyStr [])),
                      (''raw_markdown'', dict_get result ''raw_markdown'' (PyStr [])),
                      (''fit_markdown'', dict_get result ''fit_markdown'' (PyStr [])),
                      (''summary'', dict_get result ''summary'' (PyStr [])),
                      (''references'', dict_get result ''references'' (PyList []))]),
                  (''metadata'', PyDict
                     [(''date'', dict_get result ''date'' (PyStr [])),
                      (''author'', dict_get result ''author'' (PyStr [])),
                      (''categories'', dict_get result ''categories'' (PyList [])),
                      (''tags'', dict_get result ''tags'' (PyList [])),
                      (''word_count'', dict_get result ''word_count'' (PyInt 0)),
                      (''relevance_score'', dict_get result ''relevance_score'' (PyFloat 0))]),
                  (''links'', dict_get result ''links'' (PyDict []))];
               out1 = out\<lparr>results_jsonl := results_jsonl out @ [content],
                          clock_reads := Suc (clock_reads out)\<rparr>
           in if dict_has result ''error'' then
                (None,
                 out1\<lparr>errors_jsonl := errors_jsonl out1 @
                         [PyDict [(''url'', url),
                                  (''timestamp'', PyStr (now (clock_reads out1))),
                                  (''error'', dict_get result ''error'' PyNone)]],
                      clock_reads := Suc (clock_reads out1)\<rparr>)
              else (None, out1)))"

fun save_batch_results :: "(nat \<Rightarrow> string) \<Rightarrow> pydict list \<Rightarrow> sink \<Rightarrow> string option \<times> sink" where
  "save_batch_results now [] out = (None, out)"
| "save_batch_results now (result # results) out =
     (case save_result now result out of
        (Some e, out') \<Rightarrow> (Some e, out')
      | (None, out') \<Rightarrow> save_batch_results now results out')"

section \<open>The batch coordinator: \<^verbatim>\<open>crawl_parallel\<close>\<close>

record crawl_stats =
  success_count :: nat
  failed_count :: nat
  timeout_count :: nat
  error_count :: nat

definition total_count :: "crawl_stats \<Rightarrow> nat" where
  "total_count stats =
     success_count stats + failed_count stats + timeout_count stats + error_count stats"

text \<open>
  Lines 246 to 263: the record built for a successful result. No operation of this block
  raises on a \<^verbatim>\<open>CrawlResult\<close>, so the value is always \<open>Inr\<close>; the handler of line 268 is
  the \<open>Inl\<close> branch of the caller.
\<close>

definition result_dict :: "string \<Rightarrow> CrawlResult \<Rightarrow> string + pydict" where
  "result_dict url result =
     (let content = (case extracted_content result of PyDict d \<Rightarrow> d | _ \<Rightarrow> []);
          md_result = markdown_v2 result
      in Inr [(''url'', PyStr url),
              (''raw_markdown'',
                 (case md_result of Some md \<Rightarrow> PyStr (raw_markdown md) | None \<Rightarrow> PyStr [])),
              (''fit_markdown'',
                 (case md_result of Some md \<Rightarrow> opt_str (fit_markdown md) | None \<Rightarrow> PyStr [])),
              (''title'', dict_get content ''title'' (PyStr [])),
              (''date'', dict_get content ''date'' (PyStr [])),
              (''categories'', dict_get content ''categories'' (PyList [])),
              (''tags'', dict_get content ''tags'' (PyList [])),
              (''word_count'',
                 (case md_result of
                    Some md \<Rightarrow>
                      (if raw_markdown md \<noteq> [] then PyInt (int (length (py_split (raw_markdown md))))
                       else PyInt 0)
                  | None \<Rightarrow> PyInt 0))])"

text \<open>
  What \<^verbatim>\<open>asyncio.gather(..., return_exceptions=True)\<close> gives for a URL is an
  \<^verbatim>\<open>Exception\<close> (\<open>Raises\<close>, with \<^verbatim>\<open>str(result)\<close>), a \<^verbatim>\<open>CancelledError\<close> (a
  \<^verbatim>\<open>BaseException\<close> that is not an \<^verbatim>\<open>Exception\<close>: \<open>RaisesBase\<close>, with the name of the
  class) or a \<^verbatim>\<open>CrawlResult\<close>. The test of line 236 is false for a \<^verbatim>\<open>CancelledError\<close>, and
  line 244 then reads \<^verbatim>\<open>result.success\<close> on it, outside any \<^verbatim>\<open>try\<close>: the text of the
  \<^verbatim>\<open>AttributeError\<close> that leaves \<^verbatim>\<open>crawl_parallel\<close>.
\<close>

definition no_success_attribute :: "string \<Rightarrow> string" where
  "no_success_attribute cls =
     CHR 0x27 # cls @ CHR 0x27 # '' object has no attribute '' @ CHR 0x27 # ''success'' @ [CHR 0x27]"

text \<open>
  Lines 235 to 273: one settled outcome updates the counters and, on success, the records
  of the batch; \<open>Inl\<close> is an exception that leaves the loop.
\<close>

definition settle_url ::
  "string \<Rightarrow> arun_outcome \<Rightarrow> crawl_stats \<times> pydict list
     \<Rightarrow> string + crawl_stats \<times> pydict list" where
  "settle_url url result acc =
     (case acc of (stats, batch_results) \<Rightarrow>
       (case result of
          Raises msg \<Rightarrow>
            (if py_in ''timeout'' (py_lower msg)
             then Inr (stats\<lparr>timeout_count := timeout_count stats + 1\<rparr>, batch_results)
             else Inr (stats\<lparr>error_count := error_count stats + 1\<rparr>, batch_results))
        | RaisesBase cls \<Rightarrow> Inl (no_success_attribute cls)
        | Returns r \<Rightarrow>
            (if success r then
               (case result_dict url r of
                  Inr d \<Rightarrow>
                    Inr (stats\<lparr>success_count := success_count stats + 1\<rparr>, batch_results @ [d])
                | Inl e \<Rightarrow> Inr (stats\<lparr>error_count := error_count stats + 1\<rparr>, batch_results))
             else Inr (stats\<lparr>failed_count := failed_count stats + 1\<rparr>, batch_results))))"

text \<open>The loop of line 235 over \<^verbatim>\<open>zip(batch, results)\<close>.\<close>

fun settle_all ::
  "(string \<times> arun_outcome) list \<Rightarrow> crawl_stats \<times> pydict list
     \<Rightarrow> string + crawl_stats \<times> pydict list" where
  "settle_all [] acc = Inr acc"
| "settle_all ((url, result) # rest) acc =
     (case settle_url url result acc of
        Inl e \<Rightarrow> Inl e
      | Inr acc' \<Rightarrow> settle_all rest acc')"

text \<open>
  One batch. Lines 224 to 231 create one \<^verbatim>\<open>arun\<close> coroutine per URL of the batch, the
  \<open>j\<close>-th with the session \<^verbatim>\<open>session_{i + j}\<close> (\<open>launch\<close>: the URL with the number of its
  session). \<open>arun url n\<close> is what the renderer gives for \<open>url\<close> in the session numbered
  \<open>n\<close>; \<open>gather\<close> collects the outcomes in the order of the batch, and they are settled in
  that order.
\<close>

definition launch :: "nat \<Rightarrow> string list \<Rightarrow> (string \<times> nat) list" where
  "launch i batch = map (\<lambda>(j, url). (url, i + j)) (List.enumerate 0 batch)"

definition gather :: "(string \<Rightarrow> nat \<Rightarrow> arun_outcome) \<Rightarrow> (string \<times> nat) list \<Rightarrow> arun_outcome list" where
  "gather arun launched = map (\<lambda>(url, session). arun url session) launched"

definition crawl_batch ::
  "(string \<Rightarrow> nat \<Rightarrow> arun_outcome) \<Rightarrow> nat \<Rightarrow> string list \<Rightarrow> crawl_stats
     \<Rightarrow> string + crawl_stats \<times> pydict list" where
  "crawl_batch arun i batch stats =
     settle_all (zip batch (gather arun (launch i batch))) (stats, [])"

text \<open>\<^verbatim>\<open>range(start, stop, step)\<close> for a positive step.\<close>

function py_range :: "nat \<Rightarrow> nat \<Rightarrow> nat \<Rightarrow> nat list" where
  "py_range i stop step = (if step = 0 \<or> stop \<le> i then [] else i # py_range (i + step) stop step)"
  by pat_completeness auto
termination
  by (relation "measure (\<lambda>(i, stop, step). stop - i)") auto

declare py_range.simps [simp del]

text \<open>
  The batches the loop cuts: each start index \<open>i\<close> of the range with the slice
  \<^verbatim>\<open>urls[i:i + max_concurrent]\<close>.
\<close>

definition batches :: "string list \<Rightarrow> nat \<Rightarrow> (nat \<times> string list) list" where
  "batches url_list k = map (\<lambda>i. (i, take k (drop i url_list))) (py_range 0 (length url_list) k)"

text \<open>
  The body of the loop of lines 219 to 279, run over the batches in order. The last argument
  and component is the record of the calls of \<^verbatim>\<open>asyncio.gather\<close> made so far: for each
  call, the URLs and sessions of the coroutines it was given. An exception raised while
  settling or saving leaves the loop (first component \<open>Some\<close>).
\<close>

fun crawl_batches ::
  "(string \<Rightarrow> nat \<Rightarrow> arun_outcome) \<Rightarrow> (nat \<Rightarrow> string) \<Rightarrow> (nat \<times> string list) list
     \<Rightarrow> crawl_stats \<Rightarrow> sink \<Rightarrow> (string \<times> nat) list list
     \<Rightarrow> string option \<times> crawl_stats \<times> sink \<times> (string \<times> nat) list list" where
  "crawl_batches arun now [] stats out gathers = (None, stats, out, gathers)"
| "crawl_batches arun now ((i, batch) # rest) stats out gathers =
     (case crawl_batch arun i batch stats of
        Inl e \<Rightarrow> (Some e, stats, out, gathers @ [launch i batch])
      | Inr (stats', batch_results) \<Rightarrow>
          (case (if batch_results \<noteq> [] then save_batch_results now batch_results out
                 else (None, out)) of
             (Some e, out') \<Rightarrow> (Some e, stats', out', gathers @ [launch i batch])
           | (None, out') \<Rightarrow>
               crawl_batches arun now rest stats' out' (gathers @ [launch i batch])))"

definition initial_stats :: crawl_stats where
  "initial_stats = \<lparr>success_count = 0, failed_count = 0, timeout_count = 0, error_count = 0\<rparr>"

text \<open>
  \<^verbatim>\<open>crawl_parallel\<close>: \<open>Inl\<close> is an exception that leaves the function (a zero step of
  \<^verbatim>\<open>range\<close>, or one raised while settling or saving); a negative \<^verbatim>\<open>max_concurrent\<close>
  gives an empty range. The second component is the state of the logs afterwards, the
  third the calls of \<^verbatim>\<open>asyncio.gather\<close> that were made.
\<close>

definition crawl_parallel ::
  "(string \<Rightarrow> nat \<Rightarrow> arun_outcome) \<Rightarrow> (nat \<Rightarrow> string) \<Rightarrow> string list \<Rightarrow> sink \<Rightarrow> int
     \<Rightarrow> (string + crawl_stats) \<times> sink \<times> (string \<times> nat) list list" where
  "crawl_parallel arun now url_list output_dir max_concurrent =
     (if max_concurrent = 0 then (Inl ''range() arg 3 must not be zero'', output_dir, [])
      else
        (case crawl_batches arun now
                (if 0 < max_concurrent then batches url_list (nat max_concurrent) else [])
                initial_stats output_dir [] of
           (Some e, stats, out, gathers) \<Rightarrow> (Inl e, out, gathers)
         | (None, stats, out, gathers) \<Rightarrow> (Inr stats, out, gathers)))"

text \<open>
  The classification in the words of the specification, to compare the loop with: an
  exception whose text, in lower case, contains \<^verbatim>\<open>timeout\<close> is a timeout, any other
  exception an error, a result with \<^verbatim>\<open>success\<close> false is failed and a result with
  \<^verbatim>\<open>success\<close> true a success. \<open>outcomes\<close> are the outcomes of a run in the order of the
  input: the \<open>n\<close>-th URL is rendered in session \<open>n\<close>.
\<close>

datatype outcome_class = Success | Failed | Timeout | Error

definition claimed_class :: "arun_outcome \<Rightarrow> outcome_class" where
  "claimed_class outcome =
     (case outcome of
        Raises msg \<Rightarrow> (if py_in ''timeout'' (py_lower msg) then Timeout else Error)
      | RaisesBase cls \<Rightarrow> Error
      | Returns r \<Rightarrow> (if success r then Success else Failed))"

definition count_class :: "outcome_class \<Rightarrow> arun_outcome list \<Rightarrow> nat" where
  "count_class c os = length (filter (\<lambda>outcome. claimed_class outcome = c) os)"

definition is_base :: "arun_outcome \<Rightarrow> bool" where
  "is_base outcome = (case outcome of RaisesBase cls \<Rightarrow> True | _ \<Rightarrow> False)"

definition outcomes :: "(string \<Rightarrow> nat \<Rightarrow> arun_outcome) \<Rightarrow> string list \<Rightarrow> arun_outcome list" where
  "outcomes arun url_list = gather arun (zip url_list [0..<length url_list])"

text \<open>
  A record that \<^verbatim>\<open>save_batch_results\<close> can write without raising and that goes to the
  results log only: it has a \<^verbatim>\<open>url\<close> and no \<^verbatim>\<open>error\<close> entry.
\<close>

definition saved_ok :: "pydict \<Rightarrow> bool" where
  "saved_ok d \<longleftrightarrow> (\<exists>u. map_of d ''url'' = Some u) \<and> \<not> dict_has d ''error''"

text \<open>Concrete inputs for the examples.\<close>

definition empty_sink :: sink where
  "empty_sink = \<lparr>results_jsonl = [], errors_jsonl = [], clock_reads = 0\<rparr>"

definition example_now :: "nat \<Rightarrow> string" where
  "example_now n = ''2025-01-01T00:00:0'' @ replicate n CHR ''0''"

definition example_arun :: "string \<Rightarrow> nat \<Rightarrow> arun_outcome" where
  "example_arun url n =
     (if url = ''https://s/ok'' then Returns example_result
      else if url = ''https://s/bad'' then Returns example_failure
      else if url = ''https://s/slow'' then Raises ''Page.goto: Timeout 30000ms exceeded''
      else Raises ''net::ERR_NAME_NOT_RESOLVED'')"

definition cancelling_arun :: "string \<Rightarrow> nat \<Rightarrow> arun_outcome" where
  "cancelling_arun url n =
     (if url = ''https://s/gone'' then RaisesBase ''CancelledError'' else Returns example_result)"

definition example_fetch :: "string \<Rightarrow> loc_text list option" where
  "example_fetch u =
     (if u = ''https://s/sitemap.xml'' then Some [Some ''https://s/a.xml'', Some ''https://s/about'']
      else if u = ''https://s/sitemap_index.xml'' then Some [Some ''https://s/p1'', Some ''https://s/p2'']
      else None)"

definition example_urljoin :: "string \<Rightarrow> string \<Rightarrow> string" where
  "example_urljoin base_url path = base_url @ path"

definition example_urls :: "string list" where
  "example_urls = [''https://s/ok'', ''https://s/bad'', ''https://s/slow'', ''https://s/x'', ''https://s/ok'']"

definition example_index_fetch :: "string \<Rightarrow> loc_text list option" where
  "example_index_fetch u =
     (if u = ''https://t/sitemap.xml'' then
        Some [Some ''https://t/a.xml'', Some ''https://t/about'', Some ''https://t/b.xml'']
      else if u = ''https://t/a.xml'' then Some [Some ''https://t/1'', Some ''https://t/2'', Some ''https://t/3'']
      else if u = ''https://t/b.xml'' then Some [Some ''https://t/3'', Some ''https://t/4'', Some ''https://t/5'']
      else None)"

section \<open>Invariants of the server\<close>

lemma ids_inv_initial: "ids_inv uuid4 (initial_state n)"
  by (simp add: ids_inv_def initial_state_def)

lemma ids_inv_crawl:
  assumes "ids_inv uuid4 s"
  shows "ids_inv uuid4 (snd (crawl uuid4 s request token))"
  using assms
  by (auto simp: crawl_def ids_inv_def Let_def nth_append lessThan_Suc less_Suc_eq)

lemma ids_inv_begin:
  assumes "ids_inv uuid4 s"
  shows "ids_inv uuid4 (process_crawl_begin s k)"
proof (cases "k < length (workers s)")
  case False
  then show ?thesis using assms by (simp add: process_crawl_begin_def)
next
  case True
  obtain tid w where w: "workers s ! k = (tid, w)" by (cases "workers s ! k")
  have tid: "tid = uuid4 k" using assms True w by (auto simp: ids_inv_def)
  have indom: "uuid4 k \<in> dom (tasks s)" using assms True by (auto simp: ids_inv_def)
  show ?thesis
    using True w assms tid indom
    by (cases w)
       (auto simp: process_crawl_begin_def ids_inv_def nth_list_update insert_absorb
             split: sum.splits)
qed

lemma ids_inv_settle:
  assumes "ids_inv uuid4 s"
  shows "ids_inv uuid4 (process_crawl_settle s k outcome elapsed_ms)"
proof (cases "k < length (workers s)")
  case False
  then show ?thesis using assms by (simp add: process_crawl_settle_def)
next
  case True
  obtain tid w where w: "workers s ! k = (tid, w)" by (cases "workers s ! k")
  have tid: "tid = uuid4 k" using assms True w by (auto simp: ids_inv_def)
  have indom: "uuid4 k \<in> dom (tasks s)" using assms True by (auto simp: ids_inv_def)
  show ?thesis
    using True w assms tid indom
    by (cases w)
       (auto simp: process_crawl_settle_def ids_inv_def nth_list_update insert_absorb
             split: option.splits)
qed




lemma failed_task_status: "map_of (failed_task v) ''status'' = Some (PyStr ''failed'')"
  by (simp add: failed_task_def)

lemma completed_task_status:
  "completed_task url request result elapsed_ms = Inr t \<Longrightarrow>
     map_of t ''status'' = Some (PyStr ''completed'')"
  by (auto simp: completed_task_def split: option.splits)

lemma settled_task_status:
  "settled_task url request outcome elapsed_ms = Some t \<Longrightarrow>
     map_of t ''status'' = Some (PyStr ''completed'') \<or> map_of t ''status'' = Some (PyStr ''failed'')"
  by (auto simp: settled_task_def failed_task_status completed_task_status
           split: arun_outcome.splits sum.splits if_splits)

lemma table_inv_initial: "table_inv uuid4 (initial_state n)"
  by (simp add: table_inv_def ids_inv_initial) (simp add: initial_state_def)

lemma table_inv_crawl:
  assumes "inj uuid4" "table_inv uuid4 s"
  shows "table_inv uuid4 (snd (crawl uuid4 s request token))"
proof (cases "use_llm request")
  case True
  then show ?thesis using assms by (simp add: crawl_def)
next
  case False
  have ids: "ids_inv uuid4 s" using assms(2) by (simp add: table_inv_def)
  have fresh: "uuid4 k \<noteq> uuid4 (uuid_calls s)" if "k < uuid_calls s" for k
    using that assms(1) by (auto dest: injD)
  have len: "length (workers s) = uuid_calls s" using ids by (simp add: ids_inv_def)
  show ?thesis
    unfolding table_inv_def
  proof (intro conjI allI impI)
    show "ids_inv uuid4 (snd (crawl uuid4 s request token))" by (rule ids_inv_crawl[OF ids])
  next
    fix k
    assume k: "k < length (workers (snd (crawl uuid4 s request token)))"
      and nd: "snd (workers (snd (crawl uuid4 s request token)) ! k) \<noteq> Done"
    show "tasks (snd (crawl uuid4 s request token)) (uuid4 k) = Some pending_task"
    proof (cases "k < uuid_calls s")
      case True
      then show ?thesis
        using False assms(2) nd fresh[OF True] len
        by (auto simp: crawl_def table_inv_def Let_def nth_append)
    next
      case False
      then have "k = uuid_calls s" using k \<open>\<not> use_llm request\<close> len
        by (simp add: crawl_def Let_def)
      then show ?thesis using \<open>\<not> use_llm request\<close> by (simp add: crawl_def Let_def)
    qed
  next
    fix k
    assume k: "k < length (workers (snd (crawl uuid4 s request token)))"
      and d: "snd (workers (snd (crawl uuid4 s request token)) ! k) = Done"
    have lt: "k < uuid_calls s"
      using k d False len by (auto simp: crawl_def Let_def nth_append less_Suc_eq)
    then show "terminal (status_of (snd (crawl uuid4 s request token)) (uuid4 k))"
      using False assms(2) d fresh[OF lt] len
      by (auto simp: crawl_def table_inv_def Let_def nth_append status_of_def)
  qed
qed

lemma table_inv_begin:
  assumes "inj uuid4" "table_inv uuid4 s"
  shows "table_inv uuid4 (process_crawl_begin s k)"
proof (cases "k < length (workers s)")
  case False
  then show ?thesis using assms by (simp add: process_crawl_begin_def)
next
  case True
  have ids: "ids_inv uuid4 s" using assms(2) by (simp add: table_inv_def)
  obtain tid w where w: "workers s ! k = (tid, w)" by (cases "workers s ! k")
  have tid: "tid = uuid4 k" using ids True w by (auto simp: ids_inv_def)
  have other: "uuid4 j \<noteq> uuid4 k" if "j \<noteq> k" for j
    using that assms(1) by (auto dest: injD)
  show ?thesis
  proof (cases w)
    case (Waiting request)
    show ?thesis
      unfolding table_inv_def
    proof (intro conjI allI impI)
      show "ids_inv uuid4 (process_crawl_begin s k)" by (rule ids_inv_begin[OF ids])
    next
      fix j
      assume "j < length (workers (process_crawl_begin s k))"
        and "snd (workers (process_crawl_begin s k) ! j) \<noteq> Done"
      then show "tasks (process_crawl_begin s k) (uuid4 j) = Some pending_task"
        using True w Waiting assms(2) tid other
        by (cases "j = k")
           (auto simp: process_crawl_begin_def table_inv_def nth_list_update
                 split: sum.splits if_splits)
    next
      fix j
      assume "j < length (workers (process_crawl_begin s k))"
        and "snd (workers (process_crawl_begin s k) ! j) = Done"
      then show "terminal (status_of (process_crawl_begin s k) (uuid4 j))"
        using True w Waiting assms(2) tid other
        by (cases "j = k")
           (auto simp: process_crawl_begin_def table_inv_def nth_list_update status_of_def
                       failed_task_status terminal_def
                 split: sum.splits if_splits)
    qed
  next
    case (Rendering url config request)
    then show ?thesis using True w assms(2) by (simp add: process_crawl_begin_def)
  next
    case Done
    then show ?thesis using True w assms(2) by (simp add: process_crawl_begin_def)
  next
    case Aborted
    then show ?thesis using True w assms(2) by (simp add: process_crawl_begin_def)
  qed
qed

lemma table_inv_settle:
  assumes "inj uuid4" "table_inv uuid4 s"
  shows "table_inv uuid4 (process_crawl_settle s k outcome elapsed_ms)"
proof (cases "k < length (workers s)")
  case False
  then show ?thesis using assms by (simp add: process_crawl_settle_def)
next
  case True
  have ids: "ids_inv uuid4 s" using assms(2) by (simp add: table_inv_def)
  obtain tid w where w: "workers s ! k = (tid, w)" by (cases "workers s ! k")
  have tid: "tid = uuid4 k" using ids True w by (auto simp: ids_inv_def)
  have other: "uuid4 j \<noteq> uuid4 k" if "j \<noteq> k" for j
    using that assms(1) by (auto dest: injD)
  show ?thesis
  proof (cases w)
    case (Rendering url config request)
    show ?thesis
      unfolding table_inv_def
    proof (intro conjI allI impI)
      show "ids_inv uuid4 (process_crawl_settle s k outcome elapsed_ms)"
        by (rule ids_inv_settle[OF ids])
    next
      fix j
      assume "j < length (workers (process_crawl_settle s k outcome elapsed_ms))"
        and "snd (workers (process_crawl_settle s k outcome elapsed_ms) ! j) \<noteq> Done"
      then show "tasks (process_crawl_settle s k outcome elapsed_ms) (uuid4 j) = Some pending_task"
        using True w Rendering assms(2) tid other
        by (cases "j = k")
           (auto simp: process_crawl_settle_def table_inv_def nth_list_update
                 split: option.splits if_splits)
    next
      fix j
      assume "j < length (workers (process_crawl_settle s k outcome elapsed_ms))"
        and "snd (workers (process_crawl_settle s k outcome elapsed_ms) ! j) = Done"
      then show "terminal (status_of (process_crawl_settle s k outcome elapsed_ms) (uuid4 j))"
        using True w Rendering assms(2) tid other
          settled_task_status[of url request outcome elapsed_ms]
        by (cases "j = k")
           (auto simp: process_crawl_settle_def table_inv_def nth_list_update status_of_def
                       terminal_def
                 split: option.splits if_splits)
    qed
  next
    case (Waiting request)
    then show ?thesis using True w assms(2) by (simp add: process_crawl_settle_def)
  next
    case Done
    then show ?thesis using True w assms(2) by (simp add: process_crawl_settle_def)
  next
    case Aborted
    then show ?thesis using True w assms(2) by (simp add: process_crawl_settle_def)
  qed
qed

lemma table_inv_fire:
  assumes "inj uuid4" "table_inv uuid4 s"
  shows "table_inv uuid4 (fire api_token uuid4 s e)"
proof (cases e)
  case (Post_crawl authorization body)
  then show ?thesis
    using assms table_inv_crawl[OF assms]
    by (simp add: post_crawl_def split: sum.splits option.splits)
next
  case (Get_task c t)
  then show ?thesis using assms by simp
next
  case (Worker_begin k)
  then show ?thesis using table_inv_begin[OF assms] by simp
next
  case (Worker_settle k outcome elapsed_ms)
  then show ?thesis using table_inv_settle[OF assms] by simp
qed

lemma table_inv_foldl:
  assumes "inj uuid4" "table_inv uuid4 s"
  shows "table_inv uuid4 (foldl (fire api_token uuid4) s evs)"
  using assms(2)
  by (induction evs arbitrary: s) (simp_all add: table_inv_fire[OF assms(1)])

lemma table_inv_exec:
  "inj uuid4 \<Longrightarrow> table_inv uuid4 (exec api_token uuid4 n evs)"
  by (simp add: exec_def table_inv_foldl table_inv_initial)

lemma pending_task_wf: "task_wf pending_task"
  by (simp add: task_wf_def pending_task_def result_present_def dict_has_def)

lemma failed_task_wf: "task_wf (failed_task v)"
  by (simp add: task_wf_def failed_task_def result_present_def dict_has_def)

lemma completed_task_wf:
  "completed_task url request result elapsed_ms = Inr t \<Longrightarrow> task_wf t"
  by (auto simp: completed_task_def task_wf_def result_present_def dict_has_def
           split: option.splits)

lemma settled_task_wf: "settled_task url request outcome elapsed_ms = Some t \<Longrightarrow> task_wf t"
  by (auto simp: settled_task_def failed_task_wf completed_task_wf
           split: arun_outcome.splits sum.splits if_splits)

lemma all_wf_fire: "all_wf s \<Longrightarrow> all_wf (fire api_token uuid4 s e)"
proof (cases e)
  case (Post_crawl authorization body)
  assume "all_wf s"
  then show ?thesis using Post_crawl pending_task_wf
    by (auto simp: all_wf_def post_crawl_def crawl_def Let_def
             split: sum.splits if_splits option.splits)
next
  case (Get_task c t)
  assume "all_wf s"
  then show ?thesis using Get_task by simp
next
  case (Worker_begin k)
  assume "all_wf s"
  then show ?thesis using Worker_begin failed_task_wf
    by (auto simp: all_wf_def process_crawl_begin_def
             split: prod.splits worker.splits sum.splits if_splits)
next
  case (Worker_settle k outcome elapsed_ms)
  assume "all_wf s"
  then show ?thesis using Worker_settle settled_task_wf
    by (auto simp: all_wf_def process_crawl_settle_def
             split: prod.splits worker.splits if_splits option.splits)
qed

lemma all_wf_foldl: "all_wf s \<Longrightarrow> all_wf (foldl (fire api_token uuid4) s evs)"
  by (induction evs arbitrary: s) (simp_all add: all_wf_fire)

lemma all_wf_initial: "all_wf (initial_state n)"
  by (simp add: all_wf_def initial_state_def)

lemma all_wf_exec: "all_wf (exec api_token uuid4 n evs)"
  unfolding exec_def by (rule all_wf_foldl[OF all_wf_initial])

lemma status_step_crawl:
  assumes "inj uuid4" "table_inv uuid4 s"
  shows "status_step (status_of s task_id) (status_of (snd (crawl uuid4 s request token)) task_id)"
proof -
  have "uuid4 (uuid_calls s) \<notin> dom (tasks s)"
    using assms by (auto simp: table_inv_def ids_inv_def dest: injD)
  then have "tasks s (uuid4 (uuid_calls s)) = None" by auto
  then show ?thesis
    by (auto simp: crawl_def status_step_def status_of_def Let_def pending_task_def)
qed

lemma status_step_begin:
  assumes "table_inv uuid4 s"
  shows "status_step (status_of s task_id) (status_of (process_crawl_begin s k) task_id)"
proof (cases "k < length (workers s)")
  case False
  then show ?thesis by (simp add: process_crawl_begin_def status_step_def)
next
  case True
  obtain tid w where w: "workers s ! k = (tid, w)" by (cases "workers s ! k")
  have tid: "tid = uuid4 k" using assms True w by (auto simp: table_inv_def ids_inv_def)
  show ?thesis
  proof (cases w)
    case (Waiting request)
    then have "tasks s tid = Some pending_task"
      using assms True w tid by (auto simp: table_inv_def)
    then show ?thesis
      using True w Waiting
      by (auto simp: process_crawl_begin_def status_step_def status_of_def failed_task_status
                     pending_task_def split: sum.splits)
  next
    case (Rendering url config request)
    then show ?thesis using True w by (simp add: process_crawl_begin_def status_step_def)
  next
    case Done
    then show ?thesis using True w by (simp add: process_crawl_begin_def status_step_def)
  next
    case Aborted
    then show ?thesis using True w by (simp add: process_crawl_begin_def status_step_def)
  qed
qed

lemma status_step_settle:
  assumes "table_inv uuid4 s"
  shows "status_step (status_of s task_id)
           (status_of (process_crawl_settle s k outcome elapsed_ms) task_id)"
proof (cases "k < length (workers s)")
  case False
  then show ?thesis by (simp add: process_crawl_settle_def status_step_def)
next
  case True
  obtain tid w where w: "workers s ! k = (tid, w)" by (cases "workers s ! k")
  have tid: "tid = uuid4 k" using assms True w by (auto simp: table_inv_def ids_inv_def)
  show ?thesis
  proof (cases w)
    case (Rendering url config request)
    then have "tasks s tid = Some pending_task"
      using assms True w tid by (auto simp: table_inv_def)
    then show ?thesis
      using True w Rendering settled_task_status[of url request outcome elapsed_ms]
      by (auto simp: process_crawl_settle_def status_step_def status_of_def pending_task_def
               split: option.splits)
  next
    case (Waiting request)
    then show ?thesis using True w by (simp add: process_crawl_settle_def status_step_def)
  next
    case Done
    then show ?thesis using True w by (simp add: process_crawl_settle_def status_step_def)
  next
    case Aborted
    then show ?thesis using True w by (simp add: process_crawl_settle_def status_step_def)
  qed
qed

lemma status_step_fire:
  assumes "inj uuid4" "table_inv uuid4 s"
  shows "status_step (status_of s task_id) (status_of (fire api_token uuid4 s e) task_id)"
proof (cases e)
  case (Post_crawl authorization body)
  show ?thesis
  proof (cases authorization)
    case None
    then show ?thesis using Post_crawl by (simp add: post_crawl_def status_step_def)
  next
    case (Some credentials)
    show ?thesis
    proof (cases "validate_request body")
      case (Inl err)
      then show ?thesis using Post_crawl Some by (simp add: post_crawl_def status_step_def)
    next
      case (Inr request)
      then show ?thesis using Post_crawl Some status_step_crawl[OF assms]
        by (simp add: post_crawl_def)
    qed
  qed
next
  case (Get_task c t)
  then show ?thesis by (simp add: status_step_def)
next
  case (Worker_begin k)
  then show ?thesis using status_step_begin[OF assms(2)] by simp
next
  case (Worker_settle k outcome elapsed_ms)
  then show ?thesis using status_step_settle[OF assms(2)] by simp
qed

lemma terminal_stable_foldl:
  assumes "inj uuid4"
  shows "table_inv uuid4 s \<Longrightarrow>
     status_of s task_id = Some (PyStr ''completed'') \<or> status_of s task_id = Some (PyStr ''failed'') \<Longrightarrow>
     status_of (foldl (fire api_token uuid4) s evs) task_id = status_of s task_id"
proof (induction evs arbitrary: s)
  case Nil
  then show ?case by simp
next
  case (Cons e evs)
  let ?s' = "fire api_token uuid4 s e"
  have inv': "table_inv uuid4 ?s'" using table_inv_fire[OF assms Cons.prems(1)] .
  have "status_step (status_of s task_id) (status_of ?s' task_id)"
    using status_step_fire[OF assms Cons.prems(1)] .
  with Cons.prems(2) have same: "status_of ?s' task_id = status_of s task_id"
    by (auto simp: status_step_def)
  with Cons.IH[OF inv'] Cons.prems(2) show ?case by simp
qed

lemma exec_append:
  "exec api_token uuid4 n (evs @ evs') = foldl (fire api_token uuid4) (exec api_token uuid4 n evs) evs'"
  by (simp add: exec_def)


lemma example_uuid4_inj: "inj example_uuid4"
  by (auto simp: inj_def example_uuid4_def dest: arg_cong[where f=length])


section \<open>Claims about the server\<close>

text \<open>
  Claim C1 (as evaluated on the code). Both handlers do the same whatever the value of the
  dependency \<^verbatim>\<open>verify_token\<close>. With the secret \<^verbatim>\<open>jeremy\<close> configured, a request
  bearing the token \<^verbatim>\<open>wrong\<close> makes \<^verbatim>\<open>verify_token\<close> return false, and still
  \<^verbatim>\<open>POST /crawl\<close> creates a pending task and returns its id, and \<^verbatim>\<open>GET /task/{id}\<close>
  returns the task: the handlers never read the value of the dependency. (A request without
  bearer credentials is answered 403 even when no secret is configured.)
\<close>

theorem wrong_token_is_served:
  "crawl uuid4 s request True = crawl uuid4 s request False
   \<and> get_task_status s task_id True = get_task_status s task_id False
   \<and> \<not> verify_token (Some ''jeremy'') ''wrong''
   \<and> fst (post_crawl (Some ''jeremy'') example_uuid4 (initial_state 5) (Some ''wrong'') example_request)
       = Inr ''task-''
   \<and> tasks (snd (post_crawl (Some ''jeremy'') example_uuid4 (initial_state 5) (Some ''wrong'')
                    example_request))
       ''task-'' = Some pending_task
   \<and> get_task (Some ''jeremy'')
       (snd (post_crawl (Some ''jeremy'') example_uuid4 (initial_state 5) (Some ''wrong'')
               example_request))
       (Some ''wrong'') ''task-'' = Inr pending_task
   \<and> fst (post_crawl None example_uuid4 (initial_state 5) None example_request)
       = Inl (HTTPException 403 ''Not authenticated'')"
  by (simp add: verify_token_def post_crawl_def validate_request_def crawl_def example_request_def
        example_uuid4_def initial_state_def Let_def get_task_def get_task_status_def)







lemma example_exec_2:
  "exec None example_uuid4 5 [Post_crawl (Some ''k'') example_request, Worker_begin 0]
     = \<lparr>tasks = [''task-'' \<mapsto> pending_task],
        workers = [(''task-'', Rendering ''https://example.com'' (run_config example_request) example_request)],
        task_semaphore = 4, uuid_calls = 1\<rparr>"
  by (simp add: exec_def post_crawl_def validate_request_def crawl_def example_request_def
        example_uuid4_def initial_state_def Let_def process_crawl_begin_def request_url_def)


text \<open>
  Claim C4, counterexample. The renderer reports a failure (\<^verbatim>\<open>success\<close> false) whose
  \<^verbatim>\<open>error_message\<close> is \<^verbatim>\<open>None\<close>: the task is stored with status failed and the entry
  \<^verbatim>\<open>error: None\<close>. Its status is failed and no non-null error is present.
\<close>

theorem failed_task_with_null_error_counterexample:
  "tasks (exec None example_uuid4 5 example_null_events) ''task-''
     = Some [(''status'', PyStr ''failed''), (''error'', PyNone)]
   \<and> status_of (exec None example_uuid4 5 example_null_events) ''task-'' = Some (PyStr ''failed'')
   \<and> \<not> error_present [(''status'', PyStr ''failed''), (''error'', PyNone)]"
  by (simp add: example_null_events_def example_null_failure_def exec_def post_crawl_def
        validate_request_def crawl_def example_request_def example_uuid4_def initial_state_def
        Let_def process_crawl_begin_def request_url_def process_crawl_settle_def settled_task_def
        failed_task_def example_result_def status_of_def error_present_def)

text \<open>
  Claim C4, amended. In every reachable state each stored task has a non-null result exactly
  when its status is completed and the key \<^verbatim>\<open>error\<close> exactly when its status is failed; a
  non-null error implies status failed. The value stored under \<^verbatim>\<open>error\<close> is the text of
  the exception, or the \<^verbatim>\<open>error_message\<close> of the renderer's result, which may be null.
  Once the status of a task is completed or failed, it is the same after any further events
  (submissions, worker steps, status queries). The uuid source is assumed to give distinct
  values on distinct draws.
\<close>

theorem task_fields_match_status_and_terminal_is_final:
  assumes "inj uuid4"
    and "s = exec api_token uuid4 n evs"
    and "s' = exec api_token uuid4 n (evs @ later)"
  shows "(\<forall>task_id t. tasks s task_id = Some t \<longrightarrow>
            (result_present t \<longleftrightarrow> map_of t ''status'' = Some (PyStr ''completed''))
            \<and> (dict_has t ''error'' \<longleftrightarrow> map_of t ''status'' = Some (PyStr ''failed''))
            \<and> (error_present t \<longrightarrow> map_of t ''status'' = Some (PyStr ''failed'')))
       \<and> (\<forall>k tid url config request.
             k < length (workers s) \<and> workers s ! k = (tid, Rendering url config request) \<longrightarrow>
               (\<forall>r. \<not> success r \<longrightarrow>
                  tasks (process_crawl_settle s k (Returns r) elapsed_ms) tid
                    = Some [(''status'', PyStr ''failed''), (''error'', opt_str (error_message r))])
               \<and> (\<forall>msg. tasks (process_crawl_settle s k (Raises msg) elapsed_ms) tid
                    = Some [(''status'', PyStr ''failed''), (''error'', PyStr msg)])
               \<and> (\<forall>r. success r \<and> markdown_v2 r \<noteq> None \<longrightarrow>
                    (\<exists>payload. tasks (process_crawl_settle s k (Returns r) elapsed_ms) tid
                       = Some [(''status'', PyStr ''completed''), (''result'', PyDict payload)])))
       \<and> (status_of s task_id = Some (PyStr ''completed'') \<or> status_of s task_id = Some (PyStr ''failed'')
            \<longrightarrow> status_of s' task_id = status_of s task_id)"
proof -
  have wf: "all_wf s" using assms(2) all_wf_exec by simp
  have inv: "table_inv uuid4 s" using assms(1,2) table_inv_exec by simp
  have s': "s' = foldl (fire api_token uuid4) s later"
    using assms(2,3) by (simp add: exec_append)
  have e: "error_present t \<Longrightarrow> dict_has t ''error''" for t
    by (simp add: error_present_def dict_has_def split: option.splits)
  have a: "\<forall>task_id t. tasks s task_id = Some t \<longrightarrow>
            (result_present t \<longleftrightarrow> map_of t ''status'' = Some (PyStr ''completed''))
            \<and> (dict_has t ''error'' \<longleftrightarrow> map_of t ''status'' = Some (PyStr ''failed''))
            \<and> (error_present t \<longrightarrow> map_of t ''status'' = Some (PyStr ''failed''))"
    using wf e unfolding all_wf_def task_wf_def by blast
  have c: "\<forall>k tid url config request.
             k < length (workers s) \<and> workers s ! k = (tid, Rendering url config request) \<longrightarrow>
               (\<forall>r. \<not> success r \<longrightarrow>
                  tasks (process_crawl_settle s k (Returns r) elapsed_ms) tid
                    = Some [(''status'', PyStr ''failed''), (''error'', opt_str (error_message r))])
               \<and> (\<forall>msg. tasks (process_crawl_settle s k (Raises msg) elapsed_ms) tid
                    = Some [(''status'', PyStr ''failed''), (''error'', PyStr msg)])
               \<and> (\<forall>r. success r \<and> markdown_v2 r \<noteq> None \<longrightarrow>
                    (\<exists>payload. tasks (process_crawl_settle s k (Returns r) elapsed_ms) tid
                       = Some [(''status'', PyStr ''completed''), (''result'', PyDict payload)]))"
    by (auto simp: process_crawl_settle_def settled_task_def failed_task_def completed_task_def)
  have b: "status_of s task_id = Some (PyStr ''completed'') \<or> status_of s task_id = Some (PyStr ''failed'')
            \<longrightarrow> status_of s' task_id = status_of s task_id"
    using terminal_stable_foldl[OF assms(1) inv] s' by blast
  from a c b show ?thesis by blast
qed

lemma example_exec_3:
  "tasks (exec None example_uuid4 5 example_events) ''task-'' = Some example_completed"
  by (simp add: example_events_def exec_def post_crawl_def validate_request_def crawl_def
        example_request_def example_uuid4_def initial_state_def Let_def process_crawl_begin_def
        request_url_def process_crawl_settle_def settled_task_def completed_task_def
        example_result_def example_completed_def)

lemma example_completed_status:
  "map_of example_completed ''status'' = Some (PyStr ''completed'')"
  by (simp add: example_completed_def)

theorem task_fields_match_status_and_terminal_is_final_witness:
  "inj example_uuid4
   \<and> tasks (exec None example_uuid4 5 example_events) ''task-'' = Some example_completed
   \<and> status_of (exec None example_uuid4 5 example_events) ''task-'' = Some (PyStr ''completed'')
   \<and> result_present example_completed
   \<and> \<not> dict_has example_completed ''error''
   \<and> status_of (exec None example_uuid4 5 (example_events @ example_later)) ''task-''
       = Some (PyStr ''completed'')
   \<and> tasks (process_crawl_settle
         (exec None example_uuid4 5 [Post_crawl (Some ''k'') example_request, Worker_begin 0])
         0 (Returns example_null_failure) 0) ''task-''
       = Some [(''status'', PyStr ''failed''), (''error'', PyNone)]"
proof -
  let ?st = "exec None example_uuid4 5 example_events"
  let ?mid = "exec None example_uuid4 5 [Post_crawl (Some ''k'') example_request, Worker_begin 0]"
  note t = task_fields_match_status_and_terminal_is_final[where api_token = None and n = 5
      and evs = example_events and later = example_later and task_id = "''task-''"
      and ?uuid4.0 = example_uuid4, OF example_uuid4_inj refl refl]
  note u = task_fields_match_status_and_terminal_is_final[where api_token = None and n = 5
      and evs = "[Post_crawl (Some ''k'') example_request, Worker_begin 0]" and later = "[]"
      and elapsed_ms = 0 and ?uuid4.0 = example_uuid4, OF example_uuid4_inj refl refl]
  have st: "status_of ?st ''task-'' = Some (PyStr ''completed'')"
    by (simp add: status_of_def example_exec_3 example_completed_status)
  from t have "\<forall>task_id t. tasks ?st task_id = Some t \<longrightarrow>
            (result_present t \<longleftrightarrow> map_of t ''status'' = Some (PyStr ''completed''))
            \<and> (dict_has t ''error'' \<longleftrightarrow> map_of t ''status'' = Some (PyStr ''failed''))
            \<and> (error_present t \<longrightarrow> map_of t ''status'' = Some (PyStr ''failed''))"
    by (rule conjunct1)
  with example_exec_3 have f:
    "(result_present example_completed
        \<longleftrightarrow> map_of example_completed ''status'' = Some (PyStr ''completed''))
     \<and> (dict_has example_completed ''error''
        \<longleftrightarrow> map_of example_completed ''status'' = Some (PyStr ''failed''))"
    by blast
  have rp: "result_present example_completed" using f example_completed_status by blast
  have ep: "\<not> dict_has example_completed ''error''" using f example_completed_status by simp
  from t st have fin: "status_of (exec None example_uuid4 5 (example_events @ example_later)) ''task-''
       = Some (PyStr ''completed'')" by simp
  have len: "0 < length (workers ?mid)" by (simp add: example_exec_2)
  have w: "workers ?mid ! 0
      = (''task-'', Rendering ''https://example.com'' (run_config example_request) example_request)"
    by (simp add: example_exec_2)
  have ns: "\<not> success example_null_failure" by (simp add: example_null_failure_def)
  have em: "opt_str (error_message example_null_failure) = PyNone"
    by (simp add: example_null_failure_def)
  from u len w ns have "tasks (process_crawl_settle ?mid 0 (Returns example_null_failure) 0) ''task-''
       = Some [(''status'', PyStr ''failed''), (''error'', opt_str (error_message example_null_failure))]"
    by blast
  then have nul: "tasks (process_crawl_settle ?mid 0 (Returns example_null_failure) 0) ''task-''
       = Some [(''status'', PyStr ''failed''), (''error'', PyNone)]" unfolding em .
  from example_uuid4_inj example_exec_3 st rp ep fin nul show ?thesis by blast
qed

text \<open>
  Claim C8, counterexample. A submission with \<^verbatim>\<open>page_timeout = 500\<close> is not accepted with
  a timeout of 1000: the field constraint rejects it (422) and the state is unchanged.
\<close>

theorem low_page_timeout_rejected_counterexample:
  "post_crawl None example_uuid4 (initial_state 5) (Some ''k'') (example_request\<lparr>page_timeout := 500\<rparr>)
     = (Inl (HTTPException 422 ''Unprocessable Entity''), initial_state 5)"
  by (simp add: post_crawl_def validate_request_def example_request_def)

text \<open>
  Claim C8, amended. A submission with bearer credentials, a priority in 1..10 and no LLM
  request is accepted exactly when its \<^verbatim>\<open>page_timeout\<close> lies in 1000..60000: outside this
  range it is rejected by validation (422, state unchanged), and for every value of the
  range it is given a task id and a worker. The timeout handed to the renderer is then the
  clamp of the submitted value into 1000..30000, that is \<open>min page_timeout 30000\<close>: equal to
  the submitted value up to 30000 and equal to 30000 above. This is the timeout in the
  configuration the new worker renders with.
\<close>

theorem page_timeout_accepted_in_range_then_capped:
  "(page_timeout body < 1000 \<or> 60000 < page_timeout body \<longrightarrow>
      post_crawl api_token uuid4 s (Some credentials) body
        = (Inl (HTTPException 422 ''Unprocessable Entity''), s))
   \<and> (1000 \<le> page_timeout body \<and> page_timeout body \<le> 60000
        \<and> 1 \<le> priority body \<and> priority body \<le> 10 \<and> \<not> use_llm body \<longrightarrow>
        validate_request body = Inr body
        \<and> fst (post_crawl api_token uuid4 s (Some credentials) body) = Inr (uuid4 (uuid_calls s))
        \<and> workers (snd (post_crawl api_token uuid4 s (Some credentials) body))
            = workers s @ [(uuid4 (uuid_calls s), Waiting body)]
        \<and> run_page_timeout (run_config body) = min (page_timeout body) 30000
        \<and> run_page_timeout (run_config body) = max 1000 (min (page_timeout body) 30000)
        \<and> 1000 \<le> run_page_timeout (run_config body)
        \<and> run_page_timeout (run_config body) \<le> 30000
        \<and> (page_timeout body \<le> 30000 \<longrightarrow> run_page_timeout (run_config body) = page_timeout body)
        \<and> (30000 < page_timeout body \<longrightarrow> run_page_timeout (run_config body) = 30000)
        \<and> (0 < task_semaphore s \<and> request_url body = Inr url \<longrightarrow>
              workers (process_crawl_begin (snd (post_crawl api_token uuid4 s (Some credentials) body))
                         (length (workers s))) ! length (workers s)
                = (uuid4 (uuid_calls s), Rendering url (run_config body) body)))"
proof (intro conjI impI)
  assume "page_timeout body < 1000 \<or> 60000 < page_timeout body"
  then show "post_crawl api_token uuid4 s (Some credentials) body
        = (Inl (HTTPException 422 ''Unprocessable Entity''), s)"
    by (auto simp: post_crawl_def validate_request_def)
next
  assume v: "1000 \<le> page_timeout body \<and> page_timeout body \<le> 60000
        \<and> 1 \<le> priority body \<and> priority body \<le> 10 \<and> \<not> use_llm body"
  then show "validate_request body = Inr body" by (simp add: validate_request_def)
  from v show "fst (post_crawl api_token uuid4 s (Some credentials) body) = Inr (uuid4 (uuid_calls s))"
    by (simp add: post_crawl_def validate_request_def crawl_def Let_def)
  from v show "workers (snd (post_crawl api_token uuid4 s (Some credentials) body))
            = workers s @ [(uuid4 (uuid_calls s), Waiting body)]"
    by (simp add: post_crawl_def validate_request_def crawl_def Let_def)
  show "run_page_timeout (run_config body) = min (page_timeout body) 30000"
    by (simp add: run_config_def)
  from v show "run_page_timeout (run_config body) = max 1000 (min (page_timeout body) 30000)"
    by (simp add: run_config_def)
  from v show "1000 \<le> run_page_timeout (run_config body)" by (simp add: run_config_def)
  show "run_page_timeout (run_config body) \<le> 30000" by (simp add: run_config_def)
  {
    assume "page_timeout body \<le> 30000"
    then show "run_page_timeout (run_config body) = page_timeout body"
      by (simp add: run_config_def)
  }
  {
    assume "30000 < page_timeout body"
    then show "run_page_timeout (run_config body) = 30000"
      by (simp add: run_config_def)
  }
  {
    assume "0 < task_semaphore s \<and> request_url body = Inr url"
    with v show "workers (process_crawl_begin (snd (post_crawl api_token uuid4 s (Some credentials) body))
                         (length (workers s))) ! length (workers s)
                = (uuid4 (uuid_calls s), Rendering url (run_config body) body)"
      by (simp add: post_crawl_def validate_request_def crawl_def Let_def process_crawl_begin_def)
  }
qed

theorem page_timeout_accepted_in_range_then_capped_witness:
  "fst (post_crawl None example_uuid4 (initial_state 5) (Some ''k'')
          (example_request\<lparr>page_timeout := 45000\<rparr>)) = Inr ''task-''
   \<and> run_page_timeout (run_config (example_request\<lparr>page_timeout := 45000\<rparr>)) = 30000
   \<and> run_page_timeout (run_config (example_request\<lparr>page_timeout := 1000\<rparr>)) = 1000
   \<and> fst (post_crawl None example_uuid4 (initial_state 5) (Some ''k'')
          (example_request\<lparr>page_timeout := 1000\<rparr>)) = Inr ''task-''
   \<and> post_crawl None example_uuid4 (initial_state 5) (Some ''k'')
        (example_request\<lparr>page_timeout := 60001\<rparr>)
       = (Inl (HTTPException 422 ''Unprocessable Entity''), initial_state 5)
   \<and> workers (process_crawl_begin
        (snd (post_crawl None example_uuid4 (initial_state 5) (Some ''k'')
                (example_request\<lparr>page_timeout := 45000\<rparr>))) 0) ! 0
       = (''task-'', Rendering ''https://example.com''
            (run_config (example_request\<lparr>page_timeout := 45000\<rparr>))
            (example_request\<lparr>page_timeout := 45000\<rparr>))"
proof -
  let ?hi = "example_request\<lparr>page_timeout := 45000\<rparr>"
  let ?lo = "example_request\<lparr>page_timeout := 1000\<rparr>"
  let ?out = "example_request\<lparr>page_timeout := 60001\<rparr>"
  let ?init = "initial_state 5"
  have vh: "1000 \<le> page_timeout ?hi \<and> page_timeout ?hi \<le> 60000
        \<and> 1 \<le> priority ?hi \<and> priority ?hi \<le> 10 \<and> \<not> use_llm ?hi"
    by (simp add: example_request_def)
  have vl: "1000 \<le> page_timeout ?lo \<and> page_timeout ?lo \<le> 60000
        \<and> 1 \<le> priority ?lo \<and> priority ?lo \<le> 10 \<and> \<not> use_llm ?lo"
    by (simp add: example_request_def)
  have big: "30000 < page_timeout ?hi" by simp
  have small: "page_timeout ?lo \<le> 30000" by simp
  have plo: "page_timeout ?lo = 1000" by simp
  have out: "page_timeout ?out < 1000 \<or> 60000 < page_timeout ?out" by simp
  have u0: "example_uuid4 (uuid_calls ?init) = ''task-''"
    by (simp add: initial_state_def example_uuid4_def)
  have w0: "length (workers ?init) = 0" by (simp add: initial_state_def)
  have pre: "0 < task_semaphore ?init \<and> request_url ?hi = Inr ''https://example.com''"
    by (simp add: initial_state_def request_url_def example_request_def)
  note th = page_timeout_accepted_in_range_then_capped[where body = ?hi and api_token = None
      and ?uuid4.0 = example_uuid4 and s = ?init and credentials = "''k''"
      and url = "''https://example.com''"]
  note tl = page_timeout_accepted_in_range_then_capped[where body = ?lo and api_token = None
      and ?uuid4.0 = example_uuid4 and s = ?init and credentials = "''k''"]
  note tout = page_timeout_accepted_in_range_then_capped[where body = ?out and api_token = None
      and ?uuid4.0 = example_uuid4 and s = ?init and credentials = "''k''"]
  have a: "fst (post_crawl None example_uuid4 ?init (Some ''k'') ?hi) = Inr ''task-''"
    using th vh unfolding u0 by blast
  have b: "run_page_timeout (run_config ?hi) = 30000" using th vh big by blast
  have "run_page_timeout (run_config ?lo) = page_timeout ?lo" using tl vl small by blast
  then have c: "run_page_timeout (run_config ?lo) = 1000" unfolding plo .
  have d: "fst (post_crawl None example_uuid4 ?init (Some ''k'') ?lo) = Inr ''task-''"
    using tl vl unfolding u0 by blast
  have r: "post_crawl None example_uuid4 ?init (Some ''k'') ?out
       = (Inl (HTTPException 422 ''Unprocessable Entity''), ?init)"
    using tout out by blast
  have "workers (process_crawl_begin (snd (post_crawl None example_uuid4 ?init (Some ''k'') ?hi))
                         (length (workers ?init))) ! length (workers ?init)
                = (example_uuid4 (uuid_calls ?init), Rendering ''https://example.com'' (run_config ?hi) ?hi)"
    using th vh pre by blast
  then have f: "workers (process_crawl_begin (snd (post_crawl None example_uuid4 ?init (Some ''k'') ?hi)) 0) ! 0
       = (''task-'', Rendering ''https://example.com'' (run_config ?hi) ?hi)"
    unfolding u0 w0 .
  from a b c d r f show ?thesis by blast
qed

text \<open>
  Claim C10. When \<^verbatim>\<open>urls\<close> is a non-empty list, the worker renders its first element, and
  neither the configuration nor the stored outcome depends on the other elements. A
  submission whose list is empty passes validation and is given a task id; when its worker
  runs, the task is stored as failed with the text of the index error.
\<close>

theorem list_urls_first_only_and_empty_list_fails:
  "(urls request = UrlList (u # rest) \<longrightarrow>
      request_url request = Inr u
      \<and> run_config request = run_config (request\<lparr>urls := Url u\<rparr>)
      \<and> settled_task u request outcome elapsed_ms
          = settled_task u (request\<lparr>urls := Url u\<rparr>) outcome elapsed_ms
      \<and> (k < length (workers s) \<and> workers s ! k = (task_id, Waiting request) \<and> 0 < task_semaphore s
           \<longrightarrow> workers (process_crawl_begin s k) ! k
                 = (task_id, Rendering u (run_config request) request)))
   \<and> (urls body = UrlList [] \<and> \<not> use_llm body
        \<and> 1 \<le> priority body \<and> priority body \<le> 10
        \<and> 1000 \<le> page_timeout body \<and> page_timeout body \<le> 60000 \<longrightarrow>
        fst (post_crawl api_token uuid4 s (Some credentials) body) = Inr (uuid4 (uuid_calls s))
        \<and> workers (snd (post_crawl api_token uuid4 s (Some credentials) body))
            = workers s @ [(uuid4 (uuid_calls s), Waiting body)])
   \<and> (urls request = UrlList [] \<and> k < length (workers s)
        \<and> workers s ! k = (task_id, Waiting request) \<and> 0 < task_semaphore s \<longrightarrow>
        tasks (process_crawl_begin s k) task_id
          = Some [(''status'', PyStr ''failed''), (''error'', PyStr ''list index out of range'')]
        \<and> status_of (process_crawl_begin s k) task_id = Some (PyStr ''failed'')
        \<and> workers (process_crawl_begin s k) ! k = (task_id, Done))"
proof (intro conjI impI)
  assume a: "urls request = UrlList (u # rest)"
  then show "request_url request = Inr u" by (simp add: request_url_def)
  show "run_config request = run_config (request\<lparr>urls := Url u\<rparr>)"
    by (simp add: run_config_def select_content_filter_def)
  show "settled_task u request outcome elapsed_ms
          = settled_task u (request\<lparr>urls := Url u\<rparr>) outcome elapsed_ms"
    by (cases outcome) (simp_all add: settled_task_def completed_task_def)
  assume "k < length (workers s) \<and> workers s ! k = (task_id, Waiting request) \<and> 0 < task_semaphore s"
  with a show "workers (process_crawl_begin s k) ! k = (task_id, Rendering u (run_config request) request)"
    by (simp add: process_crawl_begin_def request_url_def)
next
  assume b: "urls body = UrlList [] \<and> \<not> use_llm body
        \<and> 1 \<le> priority body \<and> priority body \<le> 10
        \<and> 1000 \<le> page_timeout body \<and> page_timeout body \<le> 60000"
  then show "fst (post_crawl api_token uuid4 s (Some credentials) body) = Inr (uuid4 (uuid_calls s))"
    by (simp add: post_crawl_def validate_request_def crawl_def Let_def)
  from b show "workers (snd (post_crawl api_token uuid4 s (Some credentials) body))
            = workers s @ [(uuid4 (uuid_calls s), Waiting body)]"
    by (simp add: post_crawl_def validate_request_def crawl_def Let_def)
next
  assume c: "urls request = UrlList [] \<and> k < length (workers s)
        \<and> workers s ! k = (task_id, Waiting request) \<and> 0 < task_semaphore s"
  then show "tasks (process_crawl_begin s k) task_id
          = Some [(''status'', PyStr ''failed''), (''error'', PyStr ''list index out of range'')]"
    by (simp add: process_crawl_begin_def request_url_def failed_task_def)
  from c show "status_of (process_crawl_begin s k) task_id = Some (PyStr ''failed'')"
    by (simp add: process_crawl_begin_def request_url_def failed_task_def status_of_def)
  from c show "workers (process_crawl_begin s k) ! k = (task_id, Done)"
    by (simp add: process_crawl_begin_def request_url_def)
qed

theorem list_urls_first_only_and_empty_list_fails_witness:
  "request_url example_list_request = Inr ''https://a.example''
   \<and> fst (post_crawl None example_uuid4 (initial_state 5) (Some ''k'') example_empty_request)
       = Inr ''task-''
   \<and> status_of (process_crawl_begin
        (snd (post_crawl None example_uuid4 (initial_state 5) (Some ''k'') example_empty_request)) 0)
        ''task-''
       = Some (PyStr ''failed'')
   \<and> tasks (process_crawl_begin
        (snd (post_crawl None example_uuid4 (initial_state 5) (Some ''k'') example_empty_request)) 0)
        ''task-''
       = Some [(''status'', PyStr ''failed''), (''error'', PyStr ''list index out of range'')]"
proof -
  let ?init = "initial_state 5"
  let ?st = "snd (post_crawl None example_uuid4 ?init (Some ''k'') example_empty_request)"
  have l: "urls example_list_request = UrlList (''https://a.example'' # [''https://b.example''])"
    by (simp add: example_list_request_def)
  have b: "urls example_empty_request = UrlList [] \<and> \<not> use_llm example_empty_request
        \<and> 1 \<le> priority example_empty_request \<and> priority example_empty_request \<le> 10
        \<and> 1000 \<le> page_timeout example_empty_request \<and> page_timeout example_empty_request \<le> 60000"
    by (simp add: example_empty_request_def example_request_def)
  have u0: "example_uuid4 (uuid_calls ?init) = ''task-''"
    by (simp add: initial_state_def example_uuid4_def)
  note t1 = list_urls_first_only_and_empty_list_fails[where request = example_list_request
      and u = "''https://a.example''" and rest = "[''https://b.example'']"]
  note t2 = list_urls_first_only_and_empty_list_fails[where body = example_empty_request
      and api_token = None and ?uuid4.0 = example_uuid4 and s = ?init and credentials = "''k''"]
  note t3 = list_urls_first_only_and_empty_list_fails[where request = example_empty_request
      and s = ?st and k = 0 and task_id = "''task-''"]
  have a1: "request_url example_list_request = Inr ''https://a.example''" using t1 l by blast
  have a2: "fst (post_crawl None example_uuid4 ?init (Some ''k'') example_empty_request) = Inr ''task-''"
    using t2 b u0 by simp
  have w: "workers ?st = workers ?init @ [(''task-'', Waiting example_empty_request)]"
    using t2 b u0 by simp
  have sem: "task_semaphore ?st = 5"
    by (simp add: post_crawl_def validate_request_def crawl_def Let_def initial_state_def
          example_empty_request_def example_request_def)
  have pre: "urls example_empty_request = UrlList [] \<and> 0 < length (workers ?st)
        \<and> workers ?st ! 0 = (''task-'', Waiting example_empty_request) \<and> 0 < task_semaphore ?st"
  proof -
    have w0: "workers ?st ! 0 = (''task-'', Waiting example_empty_request)"
      unfolding w by (simp add: initial_state_def)
    have len: "0 < length (workers ?st)" unfolding w by simp
    have pos: "0 < task_semaphore ?st" unfolding sem by simp
    from b w0 len pos show ?thesis by blast
  qed
  from t3 pre have a3: "status_of (process_crawl_begin ?st 0) ''task-'' = Some (PyStr ''failed'')"
    by blast
  from t3 pre have a4: "tasks (process_crawl_begin ?st 0) ''task-''
       = Some [(''status'', PyStr ''failed''), (''error'', PyStr ''list index out of range'')]"
    by blast
  from a1 a2 a3 a4 show ?thesis by blast
qed

section \<open>Lemmas about the batch coordinator, the sink and discovery\<close>

lemma ceil_div_step:
  fixes d k :: nat
  assumes "0 < k" "0 < d"
  shows "(d + k - 1) div k = Suc ((d - k + k - 1) div k)"
proof (cases "k \<le> d")
  case True
  define x where "x = d - k + k - 1"
  have "d + k - 1 = x + k" using True assms by (simp add: x_def)
  then have "(d + k - 1) div k = (x + k) div k" by simp
  also have "\<dots> = Suc (x div k)" using assms(1) by simp
  finally show ?thesis by (simp add: x_def)
next
  case False
  then have z: "d - k = 0" by simp
  have a: "(d - k + k - 1) div k = 0" using z assms(1) by simp
  define y where "y = d - 1"
  have y: "y < k" "d + k - 1 = y + k" using False assms by (simp_all add: y_def)
  have "(d + k - 1) div k = (y + k) div k" using y by simp
  also have "\<dots> = Suc (y div k)" using assms(1) by simp
  also have "\<dots> = Suc 0" using y by simp
  finally show ?thesis using a by simp
qed

lemma py_range_stop: "step = 0 \<or> stop \<le> i \<Longrightarrow> py_range i stop step = []"
  by (subst py_range.simps) simp

lemma py_range_step:
  "0 < step \<Longrightarrow> i < stop \<Longrightarrow> py_range i stop step = i # py_range (i + step) stop step"
  by (subst py_range.simps) simp

lemma py_range_length:
  "0 < k \<Longrightarrow> length (py_range i n k) = (n - i + k - 1) div k"
proof (induction i n k rule: py_range.induct)
  case (1 i stop step)
  show ?case
  proof (cases "stop \<le> i")
    case True
    then show ?thesis using "1.prems" by (simp add: py_range_stop)
  next
    case False
    have IH: "length (py_range (i + step) stop step) = (stop - (i + step) + step - 1) div step"
      using "1.IH" "1.prems" False by simp
    have unfold: "length (py_range i stop step) = Suc (length (py_range (i + step) stop step))"
      using False "1.prems" by (simp add: py_range_step)
    have "(stop - i + step - 1) div step = Suc ((stop - (i + step) + step - 1) div step)"
      using ceil_div_step[of step "stop - i"] "1.prems" False by simp
    with unfold IH show ?thesis by simp
  qed
qed

lemma py_range_concat:
  "0 < k \<Longrightarrow> concat (map (\<lambda>i. take k (drop i xs)) (py_range i (length xs) k)) = drop i xs"
proof (induction i "length xs" k rule: py_range.induct)
  case (1 i step)
  show ?case
  proof (cases "length xs \<le> i")
    case True
    then show ?thesis by (simp add: py_range_stop)
  next
    case False
    have IH: "concat (map (\<lambda>i. take step (drop i xs)) (py_range (i + step) (length xs) step))
        = drop (i + step) xs"
      using "1.hyps" "1.prems" False by simp
    have d: "drop (i + step) xs = drop step (drop i xs)" by (simp add: add.commute)
    have u: "py_range i (length xs) step = i # py_range (i + step) (length xs) step"
      using False "1.prems" by (simp add: py_range_step)
    have "concat (map (\<lambda>i. take step (drop i xs)) (py_range i (length xs) step))
        = take step (drop i xs) @ drop step (drop i xs)"
      unfolding u using IH d by simp
    then show ?thesis by (simp only: append_take_drop_id)
  qed
qed

lemma py_range_bounds:
  "0 < k \<Longrightarrow> j \<in> set (py_range i n k) \<Longrightarrow> i \<le> j \<and> j < n"
proof (induction i n k rule: py_range.induct)
  case (1 i stop step)
  show ?case
  proof (cases "stop \<le> i")
    case True
    then show ?thesis using "1.prems" by (simp add: py_range_stop)
  next
    case False
    then have "j = i \<or> j \<in> set (py_range (i + step) stop step)"
      using "1.prems" by (simp add: py_range_step)
    then show ?thesis
    proof
      assume "j = i" then show ?thesis using False by simp
    next
      assume "j \<in> set (py_range (i + step) stop step)"
      then have "i + step \<le> j \<and> j < stop" using "1.IH" "1.prems"(1) False by simp
      then show ?thesis by simp
    qed
  qed
qed

lemma batches_length: "0 < k \<Longrightarrow> length (batches url_list k) = (length url_list + k - 1) div k"
  by (simp add: batches_def py_range_length)

lemma batches_concat: "0 < k \<Longrightarrow> concat (map snd (batches url_list k)) = url_list"
  using py_range_concat[of k url_list 0] by (simp add: batches_def comp_def)

lemma batches_sizes:
  assumes "0 < k" "b \<in> set (map snd (batches url_list k))"
  shows "1 \<le> length b \<and> length b \<le> k"
proof -
  from assms(2) obtain j where j: "j \<in> set (py_range 0 (length url_list) k)"
    and b: "b = take k (drop j url_list)"
    by (auto simp: batches_def)
  from py_range_bounds[OF assms(1) j] have "j < length url_list" by simp
  then show ?thesis using b assms(1) by simp
qed

lemma ceil_nat_div:
  fixes n k :: nat
  assumes "0 < k"
  shows "int ((n + k - 1) div k) = \<lceil>real n / real k\<rceil>"
proof -
  define m where "m = (n + k - 1) div k"
  have 1: "m * k \<le> n + k - 1" by (simp add: m_def)
  have 2: "n + k - 1 < m * k + k"
    using dividend_less_div_times[OF assms, of "n + k - 1"] by (simp add: m_def add.commute)
  from 2 have up: "n \<le> m * k" by simp
  from 1 assms have lo: "m * k < n + k" by simp
  have k: "0 < real k" using assms by simp
  have "real n \<le> real m * real k" using up by (metis of_nat_le_iff of_nat_mult)
  then have a: "real n / real k \<le> real m" using k by (simp add: pos_divide_le_eq)
  have "real m * real k < real n + real k" using lo by (metis of_nat_less_iff of_nat_mult of_nat_add)
  then have "(real m - 1) * real k < real n" by (simp add: algebra_simps)
  then have b: "real m - 1 < real n / real k" using k by (simp add: pos_less_divide_eq)
  have "\<lceil>real n / real k\<rceil> = int m"
    by (rule ceiling_unique) (use a b in simp_all)
  then show ?thesis by (simp add: m_def)
qed

lemma result_dict_ok: "\<exists>d. result_dict url r = Inr d \<and> saved_ok d"
  by (simp add: result_dict_def saved_ok_def dict_has_def Let_def)

lemma result_dict_saved: "result_dict url r = Inr d \<Longrightarrow> saved_ok d"
  using result_dict_ok[of url r] by simp

lemma result_dict_never_raises: "result_dict url r \<noteq> Inl e"
  by (simp add: result_dict_def Let_def)

lemma save_result_ok:
  "saved_ok d \<Longrightarrow> \<exists>line. save_result now d out
      = (None, out\<lparr>results_jsonl := results_jsonl out @ [line], clock_reads := Suc (clock_reads out)\<rparr>)"
  by (auto simp: save_result_def saved_ok_def Let_def)

lemma save_batch_results_ok:
  "list_all saved_ok ds \<Longrightarrow>
     \<exists>lines. length lines = length ds \<and>
       save_batch_results now ds out
         = (None, out\<lparr>results_jsonl := results_jsonl out @ lines,
                       clock_reads := clock_reads out + length ds\<rparr>)"
proof (induction ds arbitrary: out)
  case Nil
  then show ?case by simp
next
  case (Cons d ds)
  from Cons.prems have d: "saved_ok d" and ds: "list_all saved_ok ds" by simp_all
  from save_result_ok[OF d, of now out] obtain line where
    l: "save_result now d out
      = (None, out\<lparr>results_jsonl := results_jsonl out @ [line], clock_reads := Suc (clock_reads out)\<rparr>)"
    by blast
  let ?out1 = "out\<lparr>results_jsonl := results_jsonl out @ [line], clock_reads := Suc (clock_reads out)\<rparr>"
  from Cons.IH[OF ds, of ?out1] obtain lines where
    n: "length lines = length ds" and
    r: "save_batch_results now ds ?out1
         = (None, ?out1\<lparr>results_jsonl := results_jsonl ?out1 @ lines,
                       clock_reads := clock_reads ?out1 + length ds\<rparr>)"
    by blast
  have "length (line # lines) = length (d # ds)" using n by simp
  moreover have "save_batch_results now (d # ds) out
         = (None, out\<lparr>results_jsonl := results_jsonl out @ (line # lines),
                       clock_reads := clock_reads out + length (d # ds)\<rparr>)"
    using l r by simp
  ultimately show ?case by blast
qed

lemma sub_sitemap_leaves_Nil: "sub_sitemap_leaves fetch [] = {}"
  by (simp add: sub_sitemap_leaves_def)

lemma sub_sitemap_leaves_Cons:
  "sub_sitemap_leaves fetch (l # ls) =
     (if is_xml_loc l then (case fetch (the l) of None \<Rightarrow> {} | Some sub_locs \<Rightarrow> set sub_locs) else {})
     \<union> sub_sitemap_leaves fetch ls"
  by (auto simp: sub_sitemap_leaves_def)

lemma fetch_sub_sitemaps_eq:
  "fetch_sub_sitemaps fetch sitemaps found = found \<union> sub_sitemap_leaves fetch sitemaps"
  by (induction sitemaps arbitrary: found)
     (auto simp: sub_sitemap_leaves_Nil sub_sitemap_leaves_Cons split: option.splits)

lemma sitemap_candidate_eq:
  "sitemap_candidate fetch sitemaps {} =
     (if list_ex is_xml_loc sitemaps then sub_sitemap_leaves fetch sitemaps else set sitemaps)"
  by (simp add: sitemap_candidate_def fetch_sub_sitemaps_eq)

lemma try_sitemaps_skip:
  "\<forall>p \<in> set pre. yields_nothing fetch (urljoin base_url p) \<Longrightarrow>
     try_sitemaps fetch urljoin base_url (pre @ rest) {} = try_sitemaps fetch urljoin base_url rest {}"
  by (induction pre) (auto simp: yields_nothing_def Let_def split: option.splits)

lemma try_sitemaps_none:
  "\<forall>p \<in> set paths. yields_nothing fetch (urljoin base_url p) \<Longrightarrow>
     try_sitemaps fetch urljoin base_url paths {} = {}"
  using try_sitemaps_skip[where pre = paths and fetch = fetch and urljoin = urljoin
      and base_url = base_url and rest = "[]"] by simp

lemma launch_eq: "launch i batch = zip batch [i..<i + length batch]"
  by (induction batch arbitrary: i rule: rev_induct)
     (simp_all add: launch_def enumerate_eq_zip zip_append1 map_zip_map2 upt_Suc_append
        flip: add_Suc_right, simp add: zip_map2 map_nth add.commute)

lemma py_range_launch:
  "0 < k \<Longrightarrow>
     concat (map (\<lambda>i. launch i (take k (drop i xs))) (py_range i (length xs) k))
       = zip (drop i xs) [i..<length xs]"
proof (induction i "length xs" k rule: py_range.induct)
  case (1 i step)
  show ?case
  proof (cases "length xs \<le> i")
    case True
    then show ?thesis by (simp add: py_range_stop)
  next
    case False
    have IH: "concat (map (\<lambda>i. launch i (take step (drop i xs))) (py_range (i + step) (length xs) step))
        = zip (drop (i + step) xs) [i + step..<length xs]"
      using "1.hyps" "1.prems" False by simp
    have u: "py_range i (length xs) step = i # py_range (i + step) (length xs) step"
      using False "1.prems" by (simp add: py_range_step)
    have d: "drop (i + step) xs = drop step (drop i xs)" by (simp add: add.commute)
    show ?thesis
    proof (cases "i + step \<le> length xs")
      case True
      have l: "length (take step (drop i xs)) = step" using True by simp
      have r: "[i..<length xs] = [i..<i + step] @ [i + step..<length xs]"
        using True by (metis le_add1 upt_add_eq_append le_Suc_ex)
      have "zip (drop i xs) [i..<length xs]
          = zip (take step (drop i xs) @ drop step (drop i xs)) ([i..<i + step] @ [i + step..<length xs])"
        by (metis r append_take_drop_id)
      also have "\<dots> = zip (take step (drop i xs)) [i..<i + step]
                      @ zip (drop step (drop i xs)) [i + step..<length xs]"
        by (rule zip_append) (use True in simp)
      finally show ?thesis unfolding u using IH d l by (simp add: launch_eq)
    next
      case False
      then have t: "take step (drop i xs) = drop i xs" by simp
      have e: "drop (i + step) xs = []" using False by simp
      have n: "i + length (drop i xs) = length xs" using \<open>\<not> length xs \<le> i\<close> by simp
      show ?thesis unfolding u using IH e t n by (simp add: launch_eq)
    qed
  qed
qed

lemma batches_launch_concat:
  "0 < k \<Longrightarrow>
     concat (map (\<lambda>(i, batch). launch i batch) (batches url_list k))
       = zip url_list [0..<length url_list]"
  using py_range_launch[of k url_list 0] by (simp add: batches_def comp_def)

lemma count_class_Nil: "count_class c [] = 0"
  by (simp add: count_class_def)

lemma count_class_append: "count_class c (xs @ ys) = count_class c xs + count_class c ys"
  by (simp add: count_class_def)

lemma count_class_Cons: "count_class c (x # xs) = count_class c [x] + count_class c xs"
  by (simp add: count_class_def)

lemma count_class_total:
  "count_class Success os + count_class Failed os + count_class Timeout os + count_class Error os
     = length os"
proof (induction os)
  case Nil
  then show ?case by (simp add: count_class_def)
next
  case (Cons x xs)
  then show ?case by (cases "claimed_class x") (simp_all add: count_class_def)
qed

lemma gather_append: "gather arun (xs @ ys) = gather arun xs @ gather arun ys"
  by (simp add: gather_def)

lemma gather_length: "length (gather arun xs) = length xs"
  by (simp add: gather_def)

lemma launch_length: "length (launch i batch) = length batch"
  by (simp add: launch_eq)

lemma settle_url_ok:
  assumes "\<not> is_base outcome"
  shows "\<exists>stats' rs'. settle_url url outcome (stats, rs) = Inr (stats', rs')
     \<and> success_count stats' = success_count stats + count_class Success [outcome]
     \<and> failed_count stats' = failed_count stats + count_class Failed [outcome]
     \<and> timeout_count stats' = timeout_count stats + count_class Timeout [outcome]
     \<and> error_count stats' = error_count stats + count_class Error [outcome]"
proof (cases outcome)
  case (Raises msg)
  then show ?thesis
    by (simp add: settle_url_def count_class_def claimed_class_def)
next
  case (RaisesBase cls)
  then show ?thesis using assms by (simp add: is_base_def)
next
  case (Returns r)
  obtain d where "result_dict url r = Inr d" using result_dict_ok[of url r] by blast
  then show ?thesis using Returns
    by (simp add: settle_url_def count_class_def claimed_class_def)
qed

lemma settle_url_saved:
  "settle_url url outcome (stats, rs) = Inr (stats', rs') \<Longrightarrow> list_all saved_ok rs \<Longrightarrow>
     list_all saved_ok rs'
     \<and> success_count stats' + length rs = success_count stats + length rs'"
  by (auto simp: settle_url_def result_dict_never_raises dest: result_dict_saved
           split: arun_outcome.splits sum.splits if_splits)

lemma settle_all_saved:
  "settle_all ps (stats, rs) = Inr (stats', rs') \<Longrightarrow> list_all saved_ok rs \<Longrightarrow>
     list_all saved_ok rs'
     \<and> success_count stats' + length rs = success_count stats + length rs'"
proof (induction ps arbitrary: stats rs)
  case Nil
  then show ?case by simp
next
  case (Cons p ps)
  obtain url outcome where p: "p = (url, outcome)" by (cases p)
  from Cons.prems(1) obtain stats1 rs1 where
    s1: "settle_url url outcome (stats, rs) = Inr (stats1, rs1)"
    and rest: "settle_all ps (stats1, rs1) = Inr (stats', rs')"
    by (auto simp: p split: sum.splits)
  from settle_url_saved[OF s1 Cons.prems(2)]
  have ok1: "list_all saved_ok rs1"
    and c1: "success_count stats1 + length rs = success_count stats + length rs1" by simp_all
  from Cons.IH[OF rest ok1] c1 show ?case by simp
qed

lemma settle_all_ok:
  assumes "list_all (\<lambda>p. \<not> is_base (snd p)) ps"
  shows "\<exists>stats' rs'. settle_all ps (stats, rs) = Inr (stats', rs')
     \<and> success_count stats' = success_count stats + count_class Success (map snd ps)
     \<and> failed_count stats' = failed_count stats + count_class Failed (map snd ps)
     \<and> timeout_count stats' = timeout_count stats + count_class Timeout (map snd ps)
     \<and> error_count stats' = error_count stats + count_class Error (map snd ps)"
  using assms
proof (induction ps arbitrary: stats rs)
  case Nil
  then show ?case by (simp add: count_class_Nil)
next
  case (Cons p ps)
  obtain url outcome where p: "p = (url, outcome)" by (cases p)
  from Cons.prems have nb: "\<not> is_base outcome"
    and rest: "list_all (\<lambda>p. \<not> is_base (snd p)) ps" by (simp_all add: p)
  from settle_url_ok[OF nb, of url stats rs] obtain stats1 rs1 where
    s1: "settle_url url outcome (stats, rs) = Inr (stats1, rs1)"
    and a: "success_count stats1 = success_count stats + count_class Success [outcome]"
    and b: "failed_count stats1 = failed_count stats + count_class Failed [outcome]"
    and c: "timeout_count stats1 = timeout_count stats + count_class Timeout [outcome]"
    and d: "error_count stats1 = error_count stats + count_class Error [outcome]"
    by blast
  from Cons.IH[OF rest, of stats1 rs1] obtain stats' rs' where
    r: "settle_all ps (stats1, rs1) = Inr (stats', rs')"
    and a': "success_count stats' = success_count stats1 + count_class Success (map snd ps)"
    and b': "failed_count stats' = failed_count stats1 + count_class Failed (map snd ps)"
    and c': "timeout_count stats' = timeout_count stats1 + count_class Timeout (map snd ps)"
    and d': "error_count stats' = error_count stats1 + count_class Error (map snd ps)"
    by blast
  have "settle_all (p # ps) (stats, rs) = Inr (stats', rs')" using s1 r by (simp add: p)
  moreover have "success_count stats' = success_count stats + count_class Success (map snd (p # ps))"
    using a a' count_class_Cons[of Success outcome "map snd ps"] by (simp add: p)
  moreover have "failed_count stats' = failed_count stats + count_class Failed (map snd (p # ps))"
    using b b' count_class_Cons[of Failed outcome "map snd ps"] by (simp add: p)
  moreover have "timeout_count stats' = timeout_count stats + count_class Timeout (map snd (p # ps))"
    using c c' count_class_Cons[of Timeout outcome "map snd ps"] by (simp add: p)
  moreover have "error_count stats' = error_count stats + count_class Error (map snd (p # ps))"
    using d d' count_class_Cons[of Error outcome "map snd ps"] by (simp add: p)
  ultimately show ?case by blast
qed

lemma crawl_batch_saved:
  "crawl_batch arun i batch stats = Inr (stats', rs) \<Longrightarrow>
     list_all saved_ok rs \<and> success_count stats' = success_count stats + length rs"
  using settle_all_saved[of "zip batch (gather arun (launch i batch))" stats "[]" stats' rs]
  by (simp add: crawl_batch_def)

lemma crawl_batch_ok:
  assumes "list_all (\<lambda>(url, session). \<not> is_base (arun url session)) (launch i batch)"
  shows "\<exists>stats' rs. crawl_batch arun i batch stats = Inr (stats', rs)
     \<and> success_count stats' = success_count stats + count_class Success (gather arun (launch i batch))
     \<and> failed_count stats' = failed_count stats + count_class Failed (gather arun (launch i batch))
     \<and> timeout_count stats' = timeout_count stats + count_class Timeout (gather arun (launch i batch))
     \<and> error_count stats' = error_count stats + count_class Error (gather arun (launch i batch))"
proof -
  let ?ps = "zip batch (gather arun (launch i batch))"
  have len: "length (gather arun (launch i batch)) = length batch"
    by (simp add: gather_length launch_length)
  have m: "map snd ?ps = gather arun (launch i batch)" using len by simp
  have "list_all (\<lambda>outcome. \<not> is_base outcome) (gather arun (launch i batch))"
    using assms by (simp add: gather_def list_all_iff split_def)
  then have "list_all (\<lambda>p. \<not> is_base (snd p)) ?ps"
    unfolding list_all_iff using m by (metis (no_types, lifting) image_eqI set_map)
  from settle_all_ok[OF this, of stats "[]"] show ?thesis
    unfolding m by (simp add: crawl_batch_def)
qed

lemma crawl_batches_errors_log:
  "errors_jsonl (fst (snd (snd (crawl_batches arun now bs stats out gathers)))) = errors_jsonl out"
proof (induction bs arbitrary: stats out gathers)
  case Nil
  then show ?case by simp
next
  case (Cons b bs)
  obtain i batch where b: "b = (i, batch)" by (cases b)
  show ?case
  proof (cases "crawl_batch arun i batch stats")
    case (Inl e)
    then show ?thesis by (simp add: b)
  next
    case (Inr r)
    obtain stats1 rs where r: "r = (stats1, rs)" by (cases r)
    have ok: "list_all saved_ok rs" using crawl_batch_saved[of arun i batch stats stats1 rs] Inr r by simp
    from save_batch_results_ok[OF ok, of now out] obtain lines where
      sv: "save_batch_results now rs out
         = (None, out\<lparr>results_jsonl := results_jsonl out @ lines,
                       clock_reads := clock_reads out + length rs\<rparr>)"
      by blast
    define out1 where "out1 = (if rs \<noteq> [] then out\<lparr>results_jsonl := results_jsonl out @ lines,
                       clock_reads := clock_reads out + length rs\<rparr> else out)"
    have step: "(if rs \<noteq> [] then save_batch_results now rs out else (None, out)) = (None, out1)"
      using sv by (simp add: out1_def)
    have e1: "errors_jsonl out1 = errors_jsonl out" by (simp add: out1_def)
    have "crawl_batches arun now (b # bs) stats out gathers
        = crawl_batches arun now bs stats1 out1 (gathers @ [launch i batch])"
      using Inr r step by (simp add: b)
    then show ?thesis using Cons.IH[of stats1 out1 "gathers @ [launch i batch]"] e1 by simp
  qed
qed

lemma crawl_parallel_errors_log:
  "errors_jsonl (fst (snd (crawl_parallel arun now url_list output_dir max_concurrent)))
     = errors_jsonl output_dir"
proof (cases "max_concurrent = 0")
  case True
  then show ?thesis by (simp add: crawl_parallel_def)
next
  case False
  let ?bs = "if 0 < max_concurrent then batches url_list (nat max_concurrent) else []"
  obtain err stats' out' gathers' where
    run: "crawl_batches arun now ?bs initial_stats output_dir [] = (err, stats', out', gathers')"
    by (metis prod_cases4)
  have e: "errors_jsonl out' = errors_jsonl output_dir"
    using crawl_batches_errors_log[of arun now ?bs initial_stats output_dir "[]"] run by simp
  have "fst (snd (crawl_parallel arun now url_list output_dir max_concurrent)) = out'"
    using False run by (cases err) (simp_all add: crawl_parallel_def)
  with e show ?thesis by simp
qed

lemma crawl_batches_ok:
  assumes "list_all (\<lambda>(i, batch).
             list_all (\<lambda>(url, session). \<not> is_base (arun url session)) (launch i batch)) bs"
  shows "\<exists>stats' out'.
       crawl_batches arun now bs stats out gathers
         = (None, stats', out', gathers @ map (\<lambda>(i, batch). launch i batch) bs)
     \<and> success_count stats' = success_count stats
         + count_class Success (gather arun (concat (map (\<lambda>(i, batch). launch i batch) bs)))
     \<and> failed_count stats' = failed_count stats
         + count_class Failed (gather arun (concat (map (\<lambda>(i, batch). launch i batch) bs)))
     \<and> timeout_count stats' = timeout_count stats
         + count_class Timeout (gather arun (concat (map (\<lambda>(i, batch). launch i batch) bs)))
     \<and> error_count stats' = error_count stats
         + count_class Error (gather arun (concat (map (\<lambda>(i, batch). launch i batch) bs)))
     \<and> length (results_jsonl out') + success_count stats
         = length (results_jsonl out) + success_count stats'"
  using assms
proof (induction bs arbitrary: stats out gathers)
  case Nil
  then show ?case by (simp add: gather_def count_class_Nil)
next
  case (Cons b bs)
  obtain i batch where b: "b = (i, batch)" by (cases b)
  from Cons.prems have nb: "list_all (\<lambda>(url, session). \<not> is_base (arun url session)) (launch i batch)"
    and rest: "list_all (\<lambda>(i, batch).
             list_all (\<lambda>(url, session). \<not> is_base (arun url session)) (launch i batch)) bs"
    by (simp_all add: b)
  from crawl_batch_ok[OF nb, of stats] obtain stats1 rs where
    cb: "crawl_batch arun i batch stats = Inr (stats1, rs)"
    and a: "success_count stats1 = success_count stats + count_class Success (gather arun (launch i batch))"
    and f: "failed_count stats1 = failed_count stats + count_class Failed (gather arun (launch i batch))"
    and t: "timeout_count stats1 = timeout_count stats + count_class Timeout (gather arun (launch i batch))"
    and e: "error_count stats1 = error_count stats + count_class Error (gather arun (launch i batch))"
    by blast
  have ok: "list_all saved_ok rs" and c1: "success_count stats1 = success_count stats + length rs"
    using crawl_batch_saved[OF cb] by simp_all
  from save_batch_results_ok[OF ok, of now out] obtain lines where
    n: "length lines = length rs" and
    sv: "save_batch_results now rs out
         = (None, out\<lparr>results_jsonl := results_jsonl out @ lines,
                       clock_reads := clock_reads out + length rs\<rparr>)"
    by blast
  define out1 where "out1 = (if rs \<noteq> [] then out\<lparr>results_jsonl := results_jsonl out @ lines,
                       clock_reads := clock_reads out + length rs\<rparr> else out)"
  have step: "(if rs \<noteq> [] then save_batch_results now rs out else (None, out)) = (None, out1)"
    using sv by (simp add: out1_def)
  have r1: "length (results_jsonl out1) = length (results_jsonl out) + length rs"
    using n by (simp add: out1_def)
  let ?L = "concat (map (\<lambda>(i, batch). launch i batch) bs)"
  from Cons.IH[OF rest, of stats1 out1 "gathers @ [launch i batch]"] obtain stats' out' where
    rec: "crawl_batches arun now bs stats1 out1 (gathers @ [launch i batch])
         = (None, stats', out', (gathers @ [launch i batch]) @ map (\<lambda>(i, batch). launch i batch) bs)"
    and a': "success_count stats' = success_count stats1 + count_class Success (gather arun ?L)"
    and f': "failed_count stats' = failed_count stats1 + count_class Failed (gather arun ?L)"
    and t': "timeout_count stats' = timeout_count stats1 + count_class Timeout (gather arun ?L)"
    and e': "error_count stats' = error_count stats1 + count_class Error (gather arun ?L)"
    and r: "length (results_jsonl out') + success_count stats1
           = length (results_jsonl out1) + success_count stats'"
    by blast
  have g: "gather arun (concat (map (\<lambda>(i, batch). launch i batch) (b # bs)))
      = gather arun (launch i batch) @ gather arun ?L"
    by (simp add: b gather_append)
  have "crawl_batches arun now (b # bs) stats out gathers
         = (None, stats', out', gathers @ map (\<lambda>(i, batch). launch i batch) (b # bs))"
    using rec by (simp add: b cb step)
  moreover have "success_count stats' = success_count stats
         + count_class Success (gather arun (concat (map (\<lambda>(i, batch). launch i batch) (b # bs))))"
    unfolding g count_class_append using a a' by simp
  moreover have "failed_count stats' = failed_count stats
         + count_class Failed (gather arun (concat (map (\<lambda>(i, batch). launch i batch) (b # bs))))"
    unfolding g count_class_append using f f' by simp
  moreover have "timeout_count stats' = timeout_count stats
         + count_class Timeout (gather arun (concat (map (\<lambda>(i, batch). launch i batch) (b # bs))))"
    unfolding g count_class_append using t t' by simp
  moreover have "error_count stats' = error_count stats
         + count_class Error (gather arun (concat (map (\<lambda>(i, batch). launch i batch) (b # bs))))"
    unfolding g count_class_append using e e' by simp
  moreover have "length (results_jsonl out') + success_count stats
           = length (results_jsonl out) + success_count stats'"
    using r r1 c1 by simp
  ultimately show ?case by blast
qed

lemma crawl_parallel_ok:
  assumes "1 \<le> max_concurrent"
    and "\<forall>n<length url_list. \<not> is_base (arun (url_list ! n) n)"
  shows "\<exists>stats out.
       crawl_parallel arun now url_list output_dir max_concurrent
         = (Inr stats, out, map (\<lambda>(i, batch). launch i batch) (batches url_list (nat max_concurrent)))
     \<and> success_count stats = count_class Success (outcomes arun url_list)
     \<and> failed_count stats = count_class Failed (outcomes arun url_list)
     \<and> timeout_count stats = count_class Timeout (outcomes arun url_list)
     \<and> error_count stats = count_class Error (outcomes arun url_list)
     \<and> length (results_jsonl out) = length (results_jsonl output_dir) + success_count stats"
proof -
  define k where "k = nat max_concurrent"
  have k: "0 < k" using assms(1) by (simp add: k_def)
  let ?bs = "batches url_list k"
  have cc: "concat (map (\<lambda>(i, batch). launch i batch) ?bs) = zip url_list [0..<length url_list]"
    by (rule batches_launch_concat[OF k])
  have nb: "list_all (\<lambda>(i, batch).
             list_all (\<lambda>(url, session). \<not> is_base (arun url session)) (launch i batch)) ?bs"
    unfolding list_all_iff
  proof (intro ballI)
    fix b assume b: "b \<in> set ?bs"
    obtain i batch where ib: "b = (i, batch)" by (cases b)
    have "\<forall>p \<in> set (launch i batch). \<not> is_base (arun (fst p) (snd p))"
    proof
      fix p assume "p \<in> set (launch i batch)"
      then have "p \<in> set (concat (map (\<lambda>(i, batch). launch i batch) ?bs))"
        using b ib by auto
      then have "p \<in> set (zip url_list [0..<length url_list])" unfolding cc .
      then obtain j where "j < length url_list" "p = (url_list ! j, j)"
        by (auto simp: set_zip)
      then show "\<not> is_base (arun (fst p) (snd p))" using assms(2) by simp
    qed
    then show "case b of (i, batch) \<Rightarrow>
        \<forall>x \<in> set (launch i batch). case x of (url, session) \<Rightarrow> \<not> is_base (arun url session)"
      by (auto simp: ib)
  qed
  from crawl_batches_ok[OF nb, of now initial_stats output_dir "[]"] obtain stats' out' where
    run: "crawl_batches arun now ?bs initial_stats output_dir []
         = (None, stats', out', [] @ map (\<lambda>(i, batch). launch i batch) ?bs)"
    and a: "success_count stats' = success_count initial_stats
         + count_class Success (gather arun (concat (map (\<lambda>(i, batch). launch i batch) ?bs)))"
    and f: "failed_count stats' = failed_count initial_stats
         + count_class Failed (gather arun (concat (map (\<lambda>(i, batch). launch i batch) ?bs)))"
    and t: "timeout_count stats' = timeout_count initial_stats
         + count_class Timeout (gather arun (concat (map (\<lambda>(i, batch). launch i batch) ?bs)))"
    and e: "error_count stats' = error_count initial_stats
         + count_class Error (gather arun (concat (map (\<lambda>(i, batch). launch i batch) ?bs)))"
    and r: "length (results_jsonl out') + success_count initial_stats
         = length (results_jsonl output_dir) + success_count stats'"
    by blast
  have "crawl_parallel arun now url_list output_dir max_concurrent
         = (Inr stats', out', map (\<lambda>(i, batch). launch i batch) (batches url_list (nat max_concurrent)))"
    using run assms(1) by (simp add: crawl_parallel_def k_def)
  moreover have "success_count stats' = count_class Success (outcomes arun url_list)"
    using a unfolding cc by (simp add: outcomes_def initial_stats_def)
  moreover have "failed_count stats' = count_class Failed (outcomes arun url_list)"
    using f unfolding cc by (simp add: outcomes_def initial_stats_def)
  moreover have "timeout_count stats' = count_class Timeout (outcomes arun url_list)"
    using t unfolding cc by (simp add: outcomes_def initial_stats_def)
  moreover have "error_count stats' = count_class Error (outcomes arun url_list)"
    using e unfolding cc by (simp add: outcomes_def initial_stats_def)
  moreover have "length (results_jsonl out') = length (results_jsonl output_dir) + success_count stats'"
    using r by (simp add: initial_stats_def)
  ultimately show ?thesis by blast
qed
section \<open>Claims about the batch coordinator, the sink and discovery\<close>

text \<open>
  Claim C5 (as evaluated on the code). Three URLs with a concurrency bound of 1, the page
  of the first being cancelled: \<^verbatim>\<open>asyncio.gather\<close> hands the \<^verbatim>\<open>CancelledError\<close> back as
  the outcome, the test of line 236 does not recognise it, and reading \<^verbatim>\<open>result.success\<close>
  raises. \<^verbatim>\<open>crawl_parallel\<close> leaves with that \<^verbatim>\<open>AttributeError\<close> after one call of
  \<^verbatim>\<open>gather\<close> instead of three, returns no stats, and has written nothing. Whenever no
  outcome is such a \<^verbatim>\<open>BaseException\<close> and the bound is at least 1, \<^verbatim>\<open>crawl_parallel\<close>
  returns; it has called \<^verbatim>\<open>gather\<close> exactly \<open>\<lceil>N / K\<rceil>\<close> times, each time with at least one
  and at most \<open>K\<close> coroutines; the URLs of the calls, in order, are the input list, the
  \<open>n\<close>-th URL in session \<open>n\<close>; and the four counters of the returned stats add up to \<open>N\<close>.
\<close>

theorem cancelled_page_aborts_crawl_parallel:
  "crawl_parallel cancelling_arun example_now
       [''https://s/gone'', ''https://s/ok'', ''https://s/ok''] empty_sink 1
     = (Inl (no_success_attribute ''CancelledError''), empty_sink, [[(''https://s/gone'', 0)]])
   \<and> (1 \<le> max_concurrent \<and> (\<forall>n<length url_list. \<not> is_base (arun (url_list ! n) n)) \<longrightarrow>
        (\<exists>stats out gathers.
            crawl_parallel arun now url_list output_dir max_concurrent = (Inr stats, out, gathers)
          \<and> int (length gathers) = \<lceil>real (length url_list) / real_of_int max_concurrent\<rceil>
          \<and> concat (map (map fst) gathers) = url_list
          \<and> concat (map (map snd) gathers) = [0..<length url_list]
          \<and> (\<forall>g \<in> set gathers. 1 \<le> length g \<and> int (length g) \<le> max_concurrent)
          \<and> success_count stats + failed_count stats + timeout_count stats + error_count stats
              = length url_list))"
proof -
  have ev: "crawl_parallel cancelling_arun example_now
       [''https://s/gone'', ''https://s/ok'', ''https://s/ok''] empty_sink 1
     = (Inl (no_success_attribute ''CancelledError''), empty_sink, [[(''https://s/gone'', 0)]])"
    by code_simp
  have gen: "1 \<le> max_concurrent \<and> (\<forall>n<length url_list. \<not> is_base (arun (url_list ! n) n)) \<longrightarrow>
        (\<exists>stats out gathers.
            crawl_parallel arun now url_list output_dir max_concurrent = (Inr stats, out, gathers)
          \<and> int (length gathers) = \<lceil>real (length url_list) / real_of_int max_concurrent\<rceil>
          \<and> concat (map (map fst) gathers) = url_list
          \<and> concat (map (map snd) gathers) = [0..<length url_list]
          \<and> (\<forall>g \<in> set gathers. 1 \<le> length g \<and> int (length g) \<le> max_concurrent)
          \<and> success_count stats + failed_count stats + timeout_count stats + error_count stats
              = length url_list)"
  proof
    assume h: "1 \<le> max_concurrent \<and> (\<forall>n<length url_list. \<not> is_base (arun (url_list ! n) n))"
    then have h1: "1 \<le> max_concurrent"
      and h2: "\<forall>n<length url_list. \<not> is_base (arun (url_list ! n) n)" by simp_all
    define k where "k = nat max_concurrent"
    have k: "0 < k" and mk: "max_concurrent = int k" using h1 by (simp_all add: k_def)
    define gathers where "gathers = map (\<lambda>(i, batch). launch i batch) (batches url_list k)"
    from crawl_parallel_ok[where arun = arun and url_list = url_list
        and max_concurrent = max_concurrent and now = now and output_dir = output_dir, OF h1 h2] obtain stats out where
      run: "crawl_parallel arun now url_list output_dir max_concurrent = (Inr stats, out, gathers)"
      and a: "success_count stats = count_class Success (outcomes arun url_list)"
      and f: "failed_count stats = count_class Failed (outcomes arun url_list)"
      and t: "timeout_count stats = count_class Timeout (outcomes arun url_list)"
      and e: "error_count stats = count_class Error (outcomes arun url_list)"
      unfolding gathers_def k_def by blast
    have n: "int (length gathers) = \<lceil>real (length url_list) / real_of_int max_concurrent\<rceil>"
      using ceil_nat_div[OF k, of "length url_list"]
      by (simp add: gathers_def batches_length[OF k] mk)
    have fsts: "map (map fst) gathers = map snd (batches url_list k)"
      by (simp add: gathers_def launch_eq split_def comp_def)
    have c1: "concat (map (map fst) gathers) = url_list"
      unfolding fsts by (rule batches_concat[OF k])
    have "concat (map (map snd) gathers) = map snd (concat gathers)"
      by (simp add: map_concat)
    also have "concat gathers = zip url_list [0..<length url_list]"
      unfolding gathers_def by (rule batches_launch_concat[OF k])
    finally have c2: "concat (map (map snd) gathers) = [0..<length url_list]" by simp
    have sz: "\<forall>g \<in> set gathers. 1 \<le> length g \<and> int (length g) \<le> max_concurrent"
    proof
      fix g assume "g \<in> set gathers"
      then obtain i batch where ib: "(i, batch) \<in> set (batches url_list k)" and g: "g = launch i batch"
        by (auto simp: gathers_def)
      from ib have "batch \<in> set (map snd (batches url_list k))" by force
      from batches_sizes[OF k this] show "1 \<le> length g \<and> int (length g) \<le> max_concurrent"
        by (simp add: g launch_length mk)
    qed
    have len: "length (outcomes arun url_list) = length url_list"
      by (simp add: outcomes_def gather_length)
    have tot: "success_count stats + failed_count stats + timeout_count stats + error_count stats
              = length url_list"
      using count_class_total[of "outcomes arun url_list"] a f t e len by simp
    from run n c1 c2 sz tot show "\<exists>stats out gathers.
            crawl_parallel arun now url_list output_dir max_concurrent = (Inr stats, out, gathers)
          \<and> int (length gathers) = \<lceil>real (length url_list) / real_of_int max_concurrent\<rceil>
          \<and> concat (map (map fst) gathers) = url_list
          \<and> concat (map (map snd) gathers) = [0..<length url_list]
          \<and> (\<forall>g \<in> set gathers. 1 \<le> length g \<and> int (length g) \<le> max_concurrent)
          \<and> success_count stats + failed_count stats + timeout_count stats + error_count stats
              = length url_list"
      by blast
  qed
  from ev gen show ?thesis by (rule conjI)
qed

lemma example_arun_not_base: "\<not> is_base (example_arun url n)"
  by (simp add: example_arun_def is_base_def)

theorem cancelled_page_aborts_crawl_parallel_witness:
  "(1::int) \<le> 2
   \<and> (\<exists>stats out gathers.
         crawl_parallel example_arun example_now example_urls empty_sink 2 = (Inr stats, out, gathers)
       \<and> length gathers = 3
       \<and> concat (map (map fst) gathers) = example_urls
       \<and> concat (map (map snd) gathers) = [0, 1, 2, 3, 4]
       \<and> success_count stats + failed_count stats + timeout_count stats + error_count stats = 5)"
proof -
  have h: "(1::int) \<le> 2 \<and> (\<forall>n<length example_urls. \<not> is_base (example_arun (example_urls ! n) n))"
    by (simp add: example_arun_not_base)
  have n: "length example_urls = 5" by (simp add: example_urls_def)
  have c: "\<lceil>real (length example_urls) / real_of_int 2\<rceil> = 3" unfolding n by (simp add: ceiling_eq_iff)
  have u: "[0..<length example_urls] = [0, 1, 2, 3, 4]" unfolding n by (simp add: upt_rec)
  from cancelled_page_aborts_crawl_parallel[where max_concurrent = 2 and url_list = example_urls
      and arun = example_arun and now = example_now and output_dir = empty_sink] h
  obtain stats out gathers where
    run: "crawl_parallel example_arun example_now example_urls empty_sink 2 = (Inr stats, out, gathers)"
    and l: "int (length gathers) = \<lceil>real (length example_urls) / real_of_int 2\<rceil>"
    and c1: "concat (map (map fst) gathers) = example_urls"
    and c2: "concat (map (map snd) gathers) = [0..<length example_urls]"
    and tot: "success_count stats + failed_count stats + timeout_count stats + error_count stats
              = length example_urls"
    by blast
  from l have l3: "length gathers = 3" unfolding c by simp
  from c2 have c2': "concat (map (map snd) gathers) = [0, 1, 2, 3, 4]" unfolding u .
  from tot have t5: "success_count stats + failed_count stats + timeout_count stats + error_count stats = 5"
    unfolding n .
  have "(1::int) \<le> 2" by simp
  with run l3 c1 c2' t5 show ?thesis by blast
qed

text \<open>
  Claim C6 (as evaluated on the code). A cancelled page is an exception whose text does not
  contain \<^verbatim>\<open>timeout\<close>, so the claim counts it as an error; the loop body raises on it
  instead, whatever the counters were, and \<^verbatim>\<open>crawl_parallel\<close> run on a page that renders
  and a cancelled one returns no stats at all: the page that rendered is neither counted nor
  saved. Whenever no outcome is such a \<^verbatim>\<open>BaseException\<close> and the bound is at least 1, the
  stats \<^verbatim>\<open>crawl_parallel\<close> returns count, for each of the four classes, exactly the
  outcomes of the run that the claim puts in that class; and the loop body adds one to the
  one counter the claim names for the outcome (the record of a success joins the records
  of the batch).
\<close>

theorem cancelled_page_is_not_classified:
  "claimed_class (RaisesBase ''CancelledError'') = Error
   \<and> settle_url url (RaisesBase ''CancelledError'') (stats, batch_results)
       = Inl (no_success_attribute ''CancelledError'')
   \<and> crawl_parallel cancelling_arun example_now [''https://s/ok'', ''https://s/gone''] empty_sink 2
       = (Inl (no_success_attribute ''CancelledError''), empty_sink,
          [[(''https://s/ok'', 0), (''https://s/gone'', 1)]])
   \<and> (1 \<le> max_concurrent \<and> (\<forall>n<length url_list. \<not> is_base (arun (url_list ! n) n)) \<longrightarrow>
        (\<exists>counted out gathers.
            crawl_parallel arun now url_list output_dir max_concurrent = (Inr counted, out, gathers)
          \<and> success_count counted = count_class Success (outcomes arun url_list)
          \<and> failed_count counted = count_class Failed (outcomes arun url_list)
          \<and> timeout_count counted = count_class Timeout (outcomes arun url_list)
          \<and> error_count counted = count_class Error (outcomes arun url_list)
          \<and> length (results_jsonl out)
              = length (results_jsonl output_dir) + count_class Success (outcomes arun url_list)))
   \<and> (py_in ''timeout'' (py_lower msg) \<longrightarrow>
        settle_url url (Raises msg) (stats, batch_results)
          = Inr (stats\<lparr>timeout_count := timeout_count stats + 1\<rparr>, batch_results))
   \<and> (\<not> py_in ''timeout'' (py_lower msg) \<longrightarrow>
        settle_url url (Raises msg) (stats, batch_results)
          = Inr (stats\<lparr>error_count := error_count stats + 1\<rparr>, batch_results))
   \<and> (\<not> success r \<longrightarrow>
        settle_url url (Returns r) (stats, batch_results)
          = Inr (stats\<lparr>failed_count := failed_count stats + 1\<rparr>, batch_results))
   \<and> (success r \<longrightarrow>
        (\<exists>d. result_dict url r = Inr d
           \<and> settle_url url (Returns r) (stats, batch_results)
               = Inr (stats\<lparr>success_count := success_count stats + 1\<rparr>, batch_results @ [d])))"
proof -
  have 1: "claimed_class (RaisesBase ''CancelledError'') = Error"
    by (simp add: claimed_class_def)
  have 2: "settle_url url (RaisesBase ''CancelledError'') (stats, batch_results)
       = Inl (no_success_attribute ''CancelledError'')"
    by (simp add: settle_url_def)
  have 3: "crawl_parallel cancelling_arun example_now [''https://s/ok'', ''https://s/gone''] empty_sink 2
       = (Inl (no_success_attribute ''CancelledError''), empty_sink,
          [[(''https://s/ok'', 0), (''https://s/gone'', 1)]])"
    by code_simp
  have 4: "1 \<le> max_concurrent \<and> (\<forall>n<length url_list. \<not> is_base (arun (url_list ! n) n)) \<longrightarrow>
        (\<exists>counted out gathers.
            crawl_parallel arun now url_list output_dir max_concurrent = (Inr counted, out, gathers)
          \<and> success_count counted = count_class Success (outcomes arun url_list)
          \<and> failed_count counted = count_class Failed (outcomes arun url_list)
          \<and> timeout_count counted = count_class Timeout (outcomes arun url_list)
          \<and> error_count counted = count_class Error (outcomes arun url_list)
          \<and> length (results_jsonl out)
              = length (results_jsonl output_dir) + count_class Success (outcomes arun url_list))"
  proof
    assume h: "1 \<le> max_concurrent \<and> (\<forall>n<length url_list. \<not> is_base (arun (url_list ! n) n))"
    then have h1: "1 \<le> max_concurrent"
      and h2: "\<forall>n<length url_list. \<not> is_base (arun (url_list ! n) n)" by simp_all
    from crawl_parallel_ok[where arun = arun and url_list = url_list
        and max_concurrent = max_concurrent and now = now and output_dir = output_dir, OF h1 h2] obtain counted out where
      run: "crawl_parallel arun now url_list output_dir max_concurrent
         = (Inr counted, out, map (\<lambda>(i, batch). launch i batch) (batches url_list (nat max_concurrent)))"
      and a: "success_count counted = count_class Success (outcomes arun url_list)"
      and f: "failed_count counted = count_class Failed (outcomes arun url_list)"
      and t: "timeout_count counted = count_class Timeout (outcomes arun url_list)"
      and e: "error_count counted = count_class Error (outcomes arun url_list)"
      and r: "length (results_jsonl out) = length (results_jsonl output_dir) + success_count counted"
      by blast
    from r a have r': "length (results_jsonl out)
              = length (results_jsonl output_dir) + count_class Success (outcomes arun url_list)"
      by simp
    from run a f t e r' show "\<exists>counted out gathers.
            crawl_parallel arun now url_list output_dir max_concurrent = (Inr counted, out, gathers)
          \<and> success_count counted = count_class Success (outcomes arun url_list)
          \<and> failed_count counted = count_class Failed (outcomes arun url_list)
          \<and> timeout_count counted = count_class Timeout (outcomes arun url_list)
          \<and> error_count counted = count_class Error (outcomes arun url_list)
          \<and> length (results_jsonl out)
              = length (results_jsonl output_dir) + count_class Success (outcomes arun url_list)"
      by blast
  qed
  have 5: "py_in ''timeout'' (py_lower msg) \<longrightarrow>
        settle_url url (Raises msg) (stats, batch_results)
          = Inr (stats\<lparr>timeout_count := timeout_count stats + 1\<rparr>, batch_results)"
    by (simp add: settle_url_def)
  have 6: "\<not> py_in ''timeout'' (py_lower msg) \<longrightarrow>
        settle_url url (Raises msg) (stats, batch_results)
          = Inr (stats\<lparr>error_count := error_count stats + 1\<rparr>, batch_results)"
    by (simp add: settle_url_def)
  have 7: "\<not> success r \<longrightarrow>
        settle_url url (Returns r) (stats, batch_results)
          = Inr (stats\<lparr>failed_count := failed_count stats + 1\<rparr>, batch_results)"
    by (simp add: settle_url_def)
  have 8: "success r \<longrightarrow>
        (\<exists>d. result_dict url r = Inr d
           \<and> settle_url url (Returns r) (stats, batch_results)
               = Inr (stats\<lparr>success_count := success_count stats + 1\<rparr>, batch_results @ [d]))"
  proof
    assume s: "success r"
    obtain d where d: "result_dict url r = Inr d" using result_dict_ok[of url r] by blast
    then have "settle_url url (Returns r) (stats, batch_results)
               = Inr (stats\<lparr>success_count := success_count stats + 1\<rparr>, batch_results @ [d])"
      using s by (simp add: settle_url_def)
    with d show "\<exists>d. result_dict url r = Inr d
           \<and> settle_url url (Returns r) (stats, batch_results)
               = Inr (stats\<lparr>success_count := success_count stats + 1\<rparr>, batch_results @ [d])"
      by blast
  qed
  from 1 2 3 4 5 6 7 8 show ?thesis by (intro conjI)
qed

lemma example_timeout_message:
  "py_in ''timeout'' (py_lower ''Page.goto: Timeout 30000ms exceeded'')"
  by code_simp

lemma example_other_message:
  "\<not> py_in ''timeout'' (py_lower ''net::ERR_NAME_NOT_RESOLVED'')"
  by code_simp

lemma example_outcome_counts:
  "count_class Success (outcomes example_arun example_urls) = 2
   \<and> count_class Failed (outcomes example_arun example_urls) = 1
   \<and> count_class Timeout (outcomes example_arun example_urls) = 1
   \<and> count_class Error (outcomes example_arun example_urls) = 1"
  by code_simp

theorem cancelled_page_is_not_classified_witness:
  "(1::int) \<le> 2
   \<and> (\<exists>out gathers.
         crawl_parallel example_arun example_now example_urls empty_sink 2
           = (Inr \<lparr>success_count = 2, failed_count = 1, timeout_count = 1, error_count = 1\<rparr>,
              out, gathers)
       \<and> length (results_jsonl out) = 2)
   \<and> py_in ''timeout'' (py_lower ''Page.goto: Timeout 30000ms exceeded'')
   \<and> settle_url ''https://s/slow'' (Raises ''Page.goto: Timeout 30000ms exceeded'') (initial_stats, [])
       = Inr (initial_stats\<lparr>timeout_count := timeout_count initial_stats + 1\<rparr>, [])
   \<and> \<not> py_in ''timeout'' (py_lower ''net::ERR_NAME_NOT_RESOLVED'')
   \<and> settle_url ''https://s/x'' (Raises ''net::ERR_NAME_NOT_RESOLVED'') (initial_stats, [])
       = Inr (initial_stats\<lparr>error_count := error_count initial_stats + 1\<rparr>, [])
   \<and> \<not> success example_failure
   \<and> settle_url ''https://s/bad'' (Returns example_failure) (initial_stats, [])
       = Inr (initial_stats\<lparr>failed_count := failed_count initial_stats + 1\<rparr>, [])
   \<and> success example_result
   \<and> (\<exists>d. settle_url ''https://s/ok'' (Returns example_result) (initial_stats, [])
       = Inr (initial_stats\<lparr>success_count := success_count initial_stats + 1\<rparr>, [d]))"
proof -
  have h: "(1::int) \<le> 2 \<and> (\<forall>n<length example_urls. \<not> is_base (example_arun (example_urls ! n) n))"
    by (simp add: example_arun_not_base)
  have f: "\<not> success example_failure" by (simp add: example_failure_def example_result_def)
  have s: "success example_result" by (simp add: example_result_def)
  note t0 = cancelled_page_is_not_classified[where max_concurrent = 2 and url_list = example_urls
      and arun = example_arun and now = example_now and output_dir = empty_sink]
  from t0 h obtain counted out gathers where
    run: "crawl_parallel example_arun example_now example_urls empty_sink 2 = (Inr counted, out, gathers)"
    and a: "success_count counted = count_class Success (outcomes example_arun example_urls)"
    and b: "failed_count counted = count_class Failed (outcomes example_arun example_urls)"
    and c: "timeout_count counted = count_class Timeout (outcomes example_arun example_urls)"
    and d: "error_count counted = count_class Error (outcomes example_arun example_urls)"
    and r: "length (results_jsonl out)
              = length (results_jsonl empty_sink) + count_class Success (outcomes example_arun example_urls)"
    by blast
  have "counted = \<lparr>success_count = 2, failed_count = 1, timeout_count = 1, error_count = 1\<rparr>"
    using a b c d example_outcome_counts by (cases counted) simp
  moreover have "length (results_jsonl out) = 2"
    using r example_outcome_counts by (simp add: empty_sink_def)
  ultimately have w0: "\<exists>out gathers.
         crawl_parallel example_arun example_now example_urls empty_sink 2
           = (Inr \<lparr>success_count = 2, failed_count = 1, timeout_count = 1, error_count = 1\<rparr>,
              out, gathers)
       \<and> length (results_jsonl out) = 2"
    using run by blast
  note t1 = cancelled_page_is_not_classified[where msg = "''Page.goto: Timeout 30000ms exceeded''"
      and url = "''https://s/slow''" and stats = initial_stats and batch_results = "[]"]
  note t2 = cancelled_page_is_not_classified[where msg = "''net::ERR_NAME_NOT_RESOLVED''"
      and url = "''https://s/x''" and stats = initial_stats and batch_results = "[]"]
  note t3 = cancelled_page_is_not_classified[where r = example_failure
      and url = "''https://s/bad''" and stats = initial_stats and batch_results = "[]"]
  note t4 = cancelled_page_is_not_classified[where r = example_result
      and url = "''https://s/ok''" and stats = initial_stats and batch_results = "[]"]
  have w1: "settle_url ''https://s/slow'' (Raises ''Page.goto: Timeout 30000ms exceeded'') (initial_stats, [])
       = Inr (initial_stats\<lparr>timeout_count := timeout_count initial_stats + 1\<rparr>, [])"
    using t1 example_timeout_message by blast
  have w2: "settle_url ''https://s/x'' (Raises ''net::ERR_NAME_NOT_RESOLVED'') (initial_stats, [])
       = Inr (initial_stats\<lparr>error_count := error_count initial_stats + 1\<rparr>, [])"
    using t2 example_other_message by blast
  have w3: "settle_url ''https://s/bad'' (Returns example_failure) (initial_stats, [])
       = Inr (initial_stats\<lparr>failed_count := failed_count initial_stats + 1\<rparr>, [])"
    using t3 f by blast
  from t4 s obtain d where "settle_url ''https://s/ok'' (Returns example_result) (initial_stats, [])
             = Inr (initial_stats\<lparr>success_count := success_count initial_stats + 1\<rparr>, [] @ [d])"
    by blast
  then have w4: "\<exists>d. settle_url ''https://s/ok'' (Returns example_result) (initial_stats, [])
       = Inr (initial_stats\<lparr>success_count := success_count initial_stats + 1\<rparr>, [d])" by simp
  have "(1::int) \<le> 2" by simp
  with w0 example_timeout_message w1 example_other_message w2 f w3 s w4 show ?thesis by (intro conjI)
qed

text \<open>
  Claim C9 (as evaluated on the code). Whatever the input, \<^verbatim>\<open>crawl_parallel\<close> leaves the
  errors log as it found it. In particular, for a batch of one page that renders and one
  whose result has \<^verbatim>\<open>success\<close> false: the stats count one success and one failure, the
  results log holds the one line of the successful page, and the errors log stays empty: only
  the successful records are handed to \<^verbatim>\<open>save_batch_results\<close>. The sink itself would write
  an errors line for a record that carries an \<^verbatim>\<open>error\<close> entry (last conjunct).
\<close>

theorem failed_item_never_reaches_errors_log:
  "errors_jsonl (fst (snd (crawl_parallel arun now url_list output_dir max_concurrent)))
     = errors_jsonl output_dir
   \<and> fst (crawl_parallel example_arun example_now [''https://s/ok'', ''https://s/bad''] empty_sink 3)
     = Inr \<lparr>success_count = 1, failed_count = 1, timeout_count = 0, error_count = 0\<rparr>
   \<and> errors_jsonl (fst (snd (crawl_parallel example_arun example_now
         [''https://s/ok'', ''https://s/bad''] empty_sink 3)))
     = []
   \<and> map (\<lambda>line. case line of PyDict d \<Rightarrow> map_of d ''url'' | _ \<Rightarrow> None)
       (results_jsonl (fst (snd (crawl_parallel example_arun example_now
          [''https://s/ok'', ''https://s/bad''] empty_sink 3))))
     = [Some (PyStr ''https://s/ok'')]
   \<and> errors_jsonl (snd (save_batch_results example_now
         [[(''url'', PyStr ''https://s/bad''), (''error'', PyStr ''HTTP 500'')]] empty_sink))
     = [PyDict [(''url'', PyStr ''https://s/bad''),
                (''timestamp'', PyStr (example_now 1)),
                (''error'', PyStr ''HTTP 500'')]]"
proof -
  have c: "fst (crawl_parallel example_arun example_now [''https://s/ok'', ''https://s/bad''] empty_sink 3)
     = Inr \<lparr>success_count = 1, failed_count = 1, timeout_count = 0, error_count = 0\<rparr>
   \<and> errors_jsonl (fst (snd (crawl_parallel example_arun example_now
         [''https://s/ok'', ''https://s/bad''] empty_sink 3)))
     = []
   \<and> map (\<lambda>line. case line of PyDict d \<Rightarrow> map_of d ''url'' | _ \<Rightarrow> None)
       (results_jsonl (fst (snd (crawl_parallel example_arun example_now
          [''https://s/ok'', ''https://s/bad''] empty_sink 3))))
     = [Some (PyStr ''https://s/ok'')]
   \<and> errors_jsonl (snd (save_batch_results example_now
         [[(''url'', PyStr ''https://s/bad''), (''error'', PyStr ''HTTP 500'')]] empty_sink))
     = [PyDict [(''url'', PyStr ''https://s/bad''),
                (''timestamp'', PyStr (example_now 1)),
                (''error'', PyStr ''HTTP 500'')]]"
    by code_simp
  with crawl_parallel_errors_log[of arun now url_list output_dir max_concurrent]
  show ?thesis by (rule conjI)
qed

text \<open>
  Claim C7, counterexample. \<^verbatim>\<open>/sitemap.xml\<close> parses and has an entry ending in \<^verbatim>\<open>.xml\<close>,
  whose sub-sitemap cannot be fetched: the union of the leaves of this candidate is empty.
  Discovery does not return it: it goes on to \<^verbatim>\<open>/sitemap_index.xml\<close> and returns the two
  entries of that file.
\<close>

theorem skipped_sitemap_index_counterexample:
  "example_fetch (example_urljoin ''https://s'' ''/sitemap.xml'')
     = Some [Some ''https://s/a.xml'', Some ''https://s/about'']
   \<and> is_xml_loc (Some ''https://s/a.xml'')
   \<and> example_fetch ''https://s/a.xml'' = None
   \<and> fetch_sub_sitemaps example_fetch [Some ''https://s/a.xml'', Some ''https://s/about''] {} = {}
   \<and> get_sitemap_urls example_fetch example_urljoin ''https://s''
     = {Some ''https://s/p1'', Some ''https://s/p2''}"
  by (simp add: example_fetch_def example_urljoin_def is_xml_loc_def endswith_def
        get_sitemap_urls_def sitemap_locations_def sitemap_candidate_def Let_def)

text \<open>
  Claim C7, amended. Take a candidate path that parses, all earlier candidates having
  yielded no URL. If one of its entries ends in \<^verbatim>\<open>.xml\<close> and the sub-sitemaps named by such
  entries give at least one value, discovery returns exactly the union of those values (the
  other entries of the file are not in it unless a sub-sitemap lists them). If no entry ends
  in \<^verbatim>\<open>.xml\<close> and the file has an entry, discovery returns exactly the set of its entries.
  If the candidate contributes no URL, discovery returns what the remaining candidates
  give; so when no later candidate yields a URL, the result is this candidate's contribution
  in every case.
\<close>

theorem winning_candidate_decides_discovery:
  assumes "sitemap_locations = pre @ path # post"
    and "\<forall>p \<in> set pre. yields_nothing fetch (urljoin base_url p)"
    and "fetch (urljoin base_url path) = Some sitemaps"
  shows "(list_ex is_xml_loc sitemaps \<and> sub_sitemap_leaves fetch sitemaps \<noteq> {} \<longrightarrow>
            get_sitemap_urls fetch urljoin base_url = sub_sitemap_leaves fetch sitemaps)
       \<and> (\<not> list_ex is_xml_loc sitemaps \<and> sitemaps \<noteq> [] \<longrightarrow>
            get_sitemap_urls fetch urljoin base_url = set sitemaps)
       \<and> (sitemap_candidate fetch sitemaps {} = {} \<longrightarrow>
            get_sitemap_urls fetch urljoin base_url = try_sitemaps fetch urljoin base_url post {})
       \<and> ((\<forall>p \<in> set post. yields_nothing fetch (urljoin base_url p)) \<longrightarrow>
            get_sitemap_urls fetch urljoin base_url
              = (if list_ex is_xml_loc sitemaps then sub_sitemap_leaves fetch sitemaps
                 else set sitemaps))"
proof -
  let ?c = "sitemap_candidate fetch sitemaps {}"
  have g: "get_sitemap_urls fetch urljoin base_url
      = try_sitemaps fetch urljoin base_url (path # post) {}"
    using try_sitemaps_skip[where pre = pre and fetch = fetch and urljoin = urljoin
        and base_url = base_url and rest = "path # post"] assms(2)
    by (simp add: get_sitemap_urls_def assms(1))
  have step: "try_sitemaps fetch urljoin base_url (path # post) {}
      = (if ?c \<noteq> {} then ?c else try_sitemaps fetch urljoin base_url post {})"
    using assms(3) by (simp add: Let_def)
  have c: "?c = (if list_ex is_xml_loc sitemaps then sub_sitemap_leaves fetch sitemaps else set sitemaps)"
    by (rule sitemap_candidate_eq)
  have 1: "list_ex is_xml_loc sitemaps \<and> sub_sitemap_leaves fetch sitemaps \<noteq> {} \<longrightarrow>
            get_sitemap_urls fetch urljoin base_url = sub_sitemap_leaves fetch sitemaps"
    using g step c by simp
  have 2: "\<not> list_ex is_xml_loc sitemaps \<and> sitemaps \<noteq> [] \<longrightarrow>
            get_sitemap_urls fetch urljoin base_url = set sitemaps"
    using g step c by simp
  have 3: "?c = {} \<longrightarrow>
            get_sitemap_urls fetch urljoin base_url = try_sitemaps fetch urljoin base_url post {}"
    using g step by simp
  have 4: "(\<forall>p \<in> set post. yields_nothing fetch (urljoin base_url p)) \<longrightarrow>
            get_sitemap_urls fetch urljoin base_url
              = (if list_ex is_xml_loc sitemaps then sub_sitemap_leaves fetch sitemaps
                 else set sitemaps)"
  proof
    assume "\<forall>p \<in> set post. yields_nothing fetch (urljoin base_url p)"
    then have "try_sitemaps fetch urljoin base_url post {} = {}" by (rule try_sitemaps_none)
    then have "get_sitemap_urls fetch urljoin base_url = ?c" using g step by auto
    then show "get_sitemap_urls fetch urljoin base_url
              = (if list_ex is_xml_loc sitemaps then sub_sitemap_leaves fetch sitemaps
                 else set sitemaps)" using c by simp
  qed
  from 1 2 3 4 show ?thesis by blast
qed

lemma example_index_leaves:
  "sub_sitemap_leaves example_index_fetch
      [Some ''https://t/a.xml'', Some ''https://t/about'', Some ''https://t/b.xml'']
     = {Some ''https://t/1'', Some ''https://t/2'', Some ''https://t/3'', Some ''https://t/4'',
        Some ''https://t/5''}"
  by (simp add: sub_sitemap_leaves_Cons sub_sitemap_leaves_Nil example_index_fetch_def
        is_xml_loc_def endswith_def) blast

theorem winning_candidate_decides_discovery_witness:
  "get_sitemap_urls example_index_fetch example_urljoin ''https://t''
     = {Some ''https://t/1'', Some ''https://t/2'', Some ''https://t/3'', Some ''https://t/4'',
        Some ''https://t/5''}
   \<and> yields_nothing example_fetch (example_urljoin ''https://s'' ''/sitemap.xml'')
   \<and> get_sitemap_urls example_fetch example_urljoin ''https://s''
     = set [Some ''https://s/p1'', Some ''https://s/p2'']"
proof -
  let ?idx = "[Some ''https://t/a.xml'', Some ''https://t/about'', Some ''https://t/b.xml'']"
  have l1: "sitemap_locations
      = [] @ ''/sitemap.xml'' # [''/sitemap_index.xml'', ''/sitemap/sitemap.xml'', ''/wp-sitemap.xml'']"
    by (simp add: sitemap_locations_def)
  have p1: "\<forall>p \<in> set []. yields_nothing example_index_fetch (example_urljoin ''https://t'' p)"
    by simp
  have f1: "example_index_fetch (example_urljoin ''https://t'' ''/sitemap.xml'') = Some ?idx"
    by (simp add: example_index_fetch_def example_urljoin_def)
  have x1: "list_ex is_xml_loc ?idx" by (simp add: is_xml_loc_def endswith_def)
  have n1: "sub_sitemap_leaves example_index_fetch ?idx \<noteq> {}"
    unfolding example_index_leaves by simp
  note t1 = winning_candidate_decides_discovery[where pre = "[]" and path = "''/sitemap.xml''"
      and post = "[''/sitemap_index.xml'', ''/sitemap/sitemap.xml'', ''/wp-sitemap.xml'']"
      and fetch = example_index_fetch and urljoin = example_urljoin and base_url = "''https://t''"
      and sitemaps = ?idx, OF l1 p1 f1]
  have a: "get_sitemap_urls example_index_fetch example_urljoin ''https://t''
     = {Some ''https://t/1'', Some ''https://t/2'', Some ''https://t/3'', Some ''https://t/4'',
        Some ''https://t/5''}"
    using t1 x1 n1 unfolding example_index_leaves by blast
  let ?flat = "[Some ''https://s/p1'', Some ''https://s/p2'']"
  have l2: "sitemap_locations
      = [''/sitemap.xml''] @ ''/sitemap_index.xml'' # [''/sitemap/sitemap.xml'', ''/wp-sitemap.xml'']"
    by (simp add: sitemap_locations_def)
  have y: "yields_nothing example_fetch (example_urljoin ''https://s'' ''/sitemap.xml'')"
    by (simp add: yields_nothing_def example_fetch_def example_urljoin_def sitemap_candidate_def
          is_xml_loc_def endswith_def)
  then have p2: "\<forall>p \<in> set [''/sitemap.xml'']. yields_nothing example_fetch (example_urljoin ''https://s'' p)"
    by simp
  have f2: "example_fetch (example_urljoin ''https://s'' ''/sitemap_index.xml'') = Some ?flat"
    by (simp add: example_fetch_def example_urljoin_def)
  have x2: "\<not> list_ex is_xml_loc ?flat \<and> ?flat \<noteq> []" by (simp add: is_xml_loc_def endswith_def)
  note t2 = winning_candidate_decides_discovery[where pre = "[''/sitemap.xml'']"
      and path = "''/sitemap_index.xml''"
      and post = "[''/sitemap/sitemap.xml'', ''/wp-sitemap.xml'']"
      and fetch = example_fetch and urljoin = example_urljoin and base_url = "''https://s''"
      and sitemaps = ?flat, OF l2 p2 f2]
  have b: "get_sitemap_urls example_fetch example_urljoin ''https://s'' = set ?flat"
    using t2 x2 by blast
  from a y b show ?thesis by blast
qed

end
